theory Spec2Isabelle
  imports Complex_Main "HOL-Library.Word" "HOL-Library.Monad_Syntax"
begin

unbundle bit_operations_syntax

section \<open>Frames and checked memory access\<close>

text \<open>
  The packet handler of \<^verbatim>\<open>src/main.c\<close> works on a captured Ethernet frame
  \<^verbatim>\<open>const uint8_t *p\<close> with \<^verbatim>\<open>int data_len\<close>. The frame is a list of bytes; offsets
  and lengths are C \<^verbatim>\<open>int\<close>s, modelled as \<open>int\<close> (every offset the handler
  computes is at most a few hundred, and \<^verbatim>\<open>data_len\<close> is only compared, so no C arithmetic
  can overflow). Every access to the buffer goes through a checked operation: \<open>None\<close> is
  an access outside the buffer (undefined behaviour in C).
\<close>

type_synonym byte = "8 word"
type_synonym frame = "byte list"

definition rd :: "frame \<Rightarrow> int \<Rightarrow> byte option" where
  "rd p i = (if 0 \<le> i \<and> i < int (length p) then Some (p ! nat i) else None)"

definition rd_bytes :: "frame \<Rightarrow> int \<Rightarrow> int \<Rightarrow> byte list option" where
  "rd_bytes p off n =
     (if 0 \<le> off \<and> 0 \<le> n \<and> off + n \<le> int (length p)
      then Some (take (nat n) (drop (nat off) p)) else None)"

definition wr :: "frame \<Rightarrow> int \<Rightarrow> byte \<Rightarrow> frame option" where
  "wr p i b = (if 0 \<le> i \<and> i < int (length p) then Some (p[nat i := b]) else None)"

text \<open>\<^verbatim>\<open>(((uint16_t)hi) << 8) | (uint16_t)lo\<close>\<close>

definition be16 :: "byte \<Rightarrow> byte \<Rightarrow> 16 word" where
  "be16 hi lo = push_bit 8 (ucast hi) OR ucast lo"

section \<open>Collaborators outside \<^verbatim>\<open>main.c\<close>\<close>

text \<open>
  \<^verbatim>\<open>hashlimit_touch_hash\<close>, \<^verbatim>\<open>hashlimit_touch\<close> (hashlimit.c) and the raw socket's
  \<^verbatim>\<open>send\<close> are not part of \<^verbatim>\<open>main.c\<close>. The handler is parametric in them: a touch
  takes the table and the key and returns the admit decision with the updated table
  (the monotonic clock it reads is part of the function), and \<open>raw_send\<close> is the
  kernel's answer to sending a frame.
\<close>

datatype send_result = SendOk | SendENOBUFS | SendError

record 'h extern =
  hashlimit_touch_hash :: "'h \<Rightarrow> byte list \<Rightarrow> bool \<times> 'h"
  hashlimit_touch :: "'h \<Rightarrow> nat \<Rightarrow> bool \<times> 'h"
  raw_send :: "frame \<Rightarrow> send_result"

text \<open>
  Modelled from the spec: the bitmap of bitmap.c (not under src/), a dense bit set over
  ports 0..65535, is the set of the indices whose bit is set; \<^verbatim>\<open>bitmap_get\<close> returns
  the bit.
\<close>

type_synonym bitmap = "nat set"

definition bitmap_get :: "bitmap \<Rightarrow> nat \<Rightarrow> int" where
  "bitmap_get b i = (if i \<in> b then 1 else 0)"

text \<open>\<^verbatim>\<open>struct state\<close>; \<open>ports_map = None\<close> is the \<^verbatim>\<open>NULL\<close> pointer (no port filter).\<close>

record 'h state =
  sources :: 'h
  ifaces :: 'h
  verbose :: int
  dry_run :: int
  ports_map :: "bitmap option"

section \<open>The packet handler\<close>

text \<open>
  A check either rejects with the text assigned to \<^verbatim>\<open>reason\<close> before
  \<^verbatim>\<open>goto reject\<close>, or passes a result on.
\<close>

datatype 'a chk = Reject string | Pass 'a

text \<open>
  Lines 107-110: the broadcast guard. \<^verbatim>\<open>&&\<close> evaluates left to right and stops at
  the first byte that is not \<^verbatim>\<open>0xff\<close>.
\<close>

fun all_ff :: "frame \<Rightarrow> int list \<Rightarrow> bool option" where
  "all_ff p [] = Some True"
| "all_ff p (i # is) =
     do { b \<leftarrow> rd p i; if b = 0xff then all_ff p is else Some False }"

definition is_broadcast :: "frame \<Rightarrow> bool option" where
  "is_broadcast p = all_ff p [0, 1, 2, 3, 4, 5]"

text \<open>Lines 115-120: EtherType and L3 offset, skipping one 802.1Q tag.\<close>

definition eth_demux :: "frame \<Rightarrow> (16 word \<times> int) option" where
  "eth_demux p =
     do {
       a \<leftarrow> rd p 12;
       b \<leftarrow> rd p 13;
       if be16 a b = 0x8100
       then do { c \<leftarrow> rd p 16; d \<leftarrow> rd p 17; Some (be16 c d, 18) }
       else Some (be16 a b, 14)
     }"

text \<open>
  The locals that classification sets: \<open>hash = None\<close> is the \<^verbatim>\<open>NULL\<close> pointer,
  \<open>Some off\<close> is \<^verbatim>\<open>&p[off]\<close>.
\<close>

record locals =
  icmp_offset :: int
  valid :: int
  hash :: "int option"
  hash_len :: int

definition locals0 :: locals where
  "locals0 = \<lparr>icmp_offset = -1, valid = 0, hash = None, hash_len = 0\<rparr>"

text \<open>Lines 124-140: the IPv4 block.\<close>

definition ipv4_block :: "frame \<Rightarrow> int \<Rightarrow> 16 word \<Rightarrow> int \<Rightarrow> locals \<Rightarrow> locals chk option" where
  "ipv4_block p data_len eth_type l3_offset v =
     (if eth_type = 0x0800 then
        do {
          b \<leftarrow> rd p l3_offset;
          if b AND 0xF0 = 0x40 then
            (let l3_hdr_len = int (unat (b AND 0x0F)) * 4 in
             if l3_hdr_len < 20 then Some (Reject ''IPv4 header invalid length'')
             else
               do {
                 protocol \<leftarrow> rd p (l3_offset + 9);
                 if protocol = 1 \<and> data_len \<ge> l3_offset + 20 + 8 + 20 + 8
                 then Some (Pass (v\<lparr>icmp_offset := l3_offset + l3_hdr_len, valid := 1,
                                     hash := Some (l3_offset + 12), hash_len := 4\<rparr>))
                 else Some (Pass (v\<lparr>icmp_offset := l3_offset + l3_hdr_len\<rparr>))
               })
          else Some (Pass v)
        }
      else Some (Pass v))"

text \<open>Lines 142-153: the IPv6 block.\<close>

definition ipv6_block :: "frame \<Rightarrow> int \<Rightarrow> 16 word \<Rightarrow> int \<Rightarrow> locals \<Rightarrow> locals option" where
  "ipv6_block p data_len eth_type l3_offset v =
     (if eth_type = 0x86dd then
        do {
          b \<leftarrow> rd p l3_offset;
          if b AND 0xF0 = 0x60 then
            do {
              protocol \<leftarrow> rd p (l3_offset + 6);
              if protocol = 58 \<and> data_len \<ge> l3_offset + 40 + 8 + 32
              then Some (v\<lparr>icmp_offset := l3_offset + 40, valid := 1,
                            hash := Some (l3_offset + 8), hash_len := 16\<rparr>)
              else Some (v\<lparr>icmp_offset := l3_offset + 40\<rparr>)
            }
          else Some v
        }
      else Some v)"

text \<open>
  Lines 112-158: L2 demux, both L3 blocks and the validity check. The result is the
  locals and, when the code jumps to \<^verbatim>\<open>reject\<close>, the reason.
\<close>

definition classify :: "frame \<Rightarrow> int \<Rightarrow> (locals \<times> string option) option" where
  "classify p data_len =
     do {
       (eth_type, l3_offset) \<leftarrow> eth_demux p;
       r4 \<leftarrow> ipv4_block p data_len eth_type l3_offset locals0;
       case r4 of
         Reject why \<Rightarrow> Some (locals0, Some why)
       | Pass v4 \<Rightarrow>
           do {
             v \<leftarrow> ipv6_block p data_len eth_type l3_offset v4;
             if valid v = 0 \<or> hash v = None \<or> hash_len v = 0 \<or> icmp_offset v < 0
             then Some (v, Some ''Invalid protocol or too short'')
             else Some (v, None)
           }
     }"

text \<open>Lines 183-192: the L4 source port, read big-endian, against the bitmap.\<close>

definition port_check :: "bitmap \<Rightarrow> frame \<Rightarrow> int \<Rightarrow> int \<Rightarrow> unit chk option" where
  "port_check pm p data_len l4_offset =
     (if data_len < l4_offset + 2 then Some (Reject ''Too short to read L4 source port'')
      else
        do {
          hi \<leftarrow> rd p l4_offset;
          lo \<leftarrow> rd p (l4_offset + 1);
          if bitmap_get pm (unat (be16 hi lo)) = 0
          then Some (Reject ''L4 source port not on whitelist'')
          else Some (Pass ())
        })"

text \<open>Lines 160-193, for a configured bitmap: the inner-payload port filter.\<close>

definition port_filter :: "bitmap \<Rightarrow> frame \<Rightarrow> int \<Rightarrow> int \<Rightarrow> unit chk option" where
  "port_filter pm p data_len icmp_off =
     (let payload_offset = icmp_off + 8 in
      if data_len < payload_offset + 9 then Some (Reject ''Payload too short'')
      else
        do {
          sel \<leftarrow> rd p (payload_offset + 8);
          if sel AND 0xF0 = 0x40 then
            do {
              b \<leftarrow> rd p payload_offset;
              port_check pm p data_len (payload_offset + int (unat (b AND 0x0F)) * 4)
            }
          else if sel AND 0xF0 = 0x60 then
            port_check pm p data_len (payload_offset + 40)
          else Some (Reject ''Invalid ICMP payload'')
        })"

text \<open>
  Lines 195-208: save the destination MAC, then the two loops that write
  \<^verbatim>\<open>pp[i] = 0xff\<close> and \<^verbatim>\<open>pp[6 + i] = dst_mac[i]\<close> for \<^verbatim>\<open>i = 0..5\<close>.
\<close>

fun wr_loop :: "frame \<Rightarrow> int \<Rightarrow> byte list \<Rightarrow> frame option" where
  "wr_loop pp off [] = Some pp"
| "wr_loop pp off (b # bs) = do { pp' \<leftarrow> wr pp off b; wr_loop pp' (off + 1) bs }"

definition rewrite_macs :: "frame \<Rightarrow> frame option" where
  "rewrite_macs p =
     do {
       dst_mac \<leftarrow> rd_bytes p 0 6;
       pp \<leftarrow> wr_loop p 0 (replicate 6 0xff);
       wr_loop pp 6 dst_mac
     }"

text \<open>
  What one call leaves behind: the return value (\<open>Fatal\<close> when \<^verbatim>\<open>PFATAL\<close> ends the
  process), the last value of \<^verbatim>\<open>reason\<close>, the buffer, the state, the lines printed and
  the frames handed to \<^verbatim>\<open>send\<close>. A printed line is the key given to
  \<^verbatim>\<open>ip_to_string\<close>, the reason, and the bytes given to \<^verbatim>\<open>to_hex\<close> when the line has
  a hex dump.
\<close>

datatype retval = Return int | Fatal

type_synonym line = "byte list \<times> string \<times> frame option"

record 'h outcome =
  ret :: retval
  reason :: string
  frame_out :: frame
  state_out :: "'h state"
  printed :: "line list"
  sent :: "frame list"

text \<open>
  The bytes \<^verbatim>\<open>ip_to_string(hash, hash_len)\<close> and \<^verbatim>\<open>hashlimit_touch_hash\<close> read: none
  for the \<^verbatim>\<open>NULL\<close> pointer with length 0.
\<close>

definition key_bytes :: "frame \<Rightarrow> locals \<Rightarrow> byte list option" where
  "key_bytes p v = (case hash v of None \<Rightarrow> Some [] | Some off \<Rightarrow> rd_bytes p off (hash_len v))"

text \<open>Lines 236-244: the \<^verbatim>\<open>reject\<close> label.\<close>

definition reject :: "'h state \<Rightarrow> frame \<Rightarrow> int \<Rightarrow> locals \<Rightarrow> string \<Rightarrow> 'h outcome option" where
  "reject s p data_len v why =
     do {
       out \<leftarrow>
         (if verbose s > 2 then
            do { k \<leftarrow> key_bytes p v; d \<leftarrow> rd_bytes p 0 data_len; Some [(k, why, Some d)] }
          else if verbose s > 1 then
            do { k \<leftarrow> key_bytes p v; Some [(k, why, None)] }
          else Some []);
       Some \<lparr>ret = Return (-1), reason = why, frame_out = p, state_out = s,
             printed = out, sent = []\<rparr>
     }"

text \<open>Lines 219-234: print, send unless dry-run, return 1.\<close>

definition transmit :: "'h extern \<Rightarrow> 'h state \<Rightarrow> frame \<Rightarrow> int \<Rightarrow> locals \<Rightarrow> 'h outcome option" where
  "transmit ext s pp data_len v =
     do {
       out \<leftarrow>
         (if verbose s > 2 then
            do {
              k \<leftarrow> key_bytes pp v;
              d \<leftarrow> rd_bytes pp 0 data_len;
              Some [(k, ''transmitting'', Some d)]
            }
          else if verbose s = 1 then
            do { k \<leftarrow> key_bytes pp v; Some [(k, ''transmitting'', None)] }
          else Some []);
       if dry_run s = 0 then
         do {
           buf \<leftarrow> rd_bytes pp 0 data_len;
           Some \<lparr>ret = (if raw_send ext buf = SendError then Fatal else Return 1),
                 reason = ''transmitting'', frame_out = pp, state_out = s,
                 printed = out, sent = [buf]\<rparr>
         }
       else
         Some \<lparr>ret = Return 1, reason = ''transmitting'', frame_out = pp, state_out = s,
               printed = out, sent = []\<rparr>
     }"

text \<open>Lines 210-217 and what follows: the two rate limiters, then transmit or reject.\<close>

definition ratelimit :: "'h extern \<Rightarrow> 'h state \<Rightarrow> frame \<Rightarrow> int \<Rightarrow> locals \<Rightarrow> 'h outcome option" where
  "ratelimit ext s pp data_len v =
     do {
       k \<leftarrow> key_bytes pp v;
       let (ok_src, src') = hashlimit_touch_hash ext (sources s) k;
       let s1 = s\<lparr>sources := src'\<rparr>;
       if \<not> ok_src then reject s1 pp data_len v ''Ratelimited on source IP''
       else
         (let (ok_if, if') = hashlimit_touch ext (ifaces s1) 0;
              s2 = s1\<lparr>ifaces := if'\<rparr>
          in if \<not> ok_if then reject s2 pp data_len v ''Ratelimited on outgoing interface''
             else transmit ext s2 pp data_len v)
     }"

text \<open>Lines 160-217: the optional port filter, the MAC rewrite, the rate limiters.\<close>

definition forward :: "'h extern \<Rightarrow> 'h state \<Rightarrow> frame \<Rightarrow> int \<Rightarrow> locals \<Rightarrow> 'h outcome option" where
  "forward ext s p data_len v =
     do {
       pf \<leftarrow> (case ports_map s of
                None \<Rightarrow> Some (Pass ())
              | Some pm \<Rightarrow> port_filter pm p data_len (icmp_offset v));
       case pf of
         Reject why \<Rightarrow> reject s p data_len v why
       | Pass _ \<Rightarrow> do { pp \<leftarrow> rewrite_macs p; ratelimit ext s pp data_len v }
     }"

text \<open>\<^verbatim>\<open>handle_packet\<close>, lines 96-245.\<close>

definition early_return :: "'h state \<Rightarrow> frame \<Rightarrow> 'h outcome" where
  "early_return s p =
     \<lparr>ret = Return (-1), reason = ''unknown'', frame_out = p, state_out = s,
      printed = [], sent = []\<rparr>"

definition handle_packet :: "'h extern \<Rightarrow> 'h state \<Rightarrow> frame \<Rightarrow> int \<Rightarrow> 'h outcome option" where
  "handle_packet ext s p data_len =
     (if data_len < 14 + 20 + 8 + 8 then Some (early_return s p)
      else
        do {
          bc \<leftarrow> is_broadcast p;
          if bc then Some (early_return s p)
          else
            do {
              (v, rej) \<leftarrow> classify p data_len;
              case rej of
                Some why \<Rightarrow> reject s p data_len v why
              | None \<Rightarrow> forward ext s p data_len v
            }
        })"

section \<open>The token-bucket limiter and sample frames\<close>

text \<open>
  Modelled from the spec: the limiter of hashlimit.c (not under src/). A table is a
  fixed number of slots indexed by \<open>hash(key) mod capacity\<close>; a touch on key \<open>K\<close> at
  monotonic time \<open>t\<close> resets the slot to a full bucket when it is empty or holds another
  key, refills it by \<open>rate_pps * (t - last_refill_ns) / 1e9\<close> up to \<open>burst\<close> otherwise,
  and admits, taking one token, exactly when at least one token is there. The hash
  function is a parameter (the spec asks for any fast mixing hash). The handler's
  theorems hold for every limiter; this one instantiates them.
\<close>

datatype key = Scalar nat | Bytes "byte list"

record bucket =
  occupant :: key
  tokens :: real
  last_refill_ns :: nat

record hashlimit =
  capacity :: nat
  rate_pps :: real
  burst :: real
  slots :: "nat \<rightharpoonup> bucket"

definition fresh_bucket :: "hashlimit \<Rightarrow> key \<Rightarrow> nat \<Rightarrow> bucket" where
  "fresh_bucket tb K t = \<lparr>occupant = K, tokens = burst tb, last_refill_ns = t\<rparr>"

definition refill :: "hashlimit \<Rightarrow> bucket \<Rightarrow> nat \<Rightarrow> bucket" where
  "refill tb b t =
     b\<lparr>tokens := min (burst tb)
                    (tokens b + rate_pps tb * (real t - real (last_refill_ns b)) / 1000000000),
       last_refill_ns := t\<rparr>"

definition touch_at :: "(key \<Rightarrow> nat) \<Rightarrow> nat \<Rightarrow> hashlimit \<Rightarrow> key \<Rightarrow> bool \<times> hashlimit" where
  "touch_at hashf t tb K =
     (let slot = hashf K mod capacity tb;
          b = (case slots tb slot of
                 None \<Rightarrow> fresh_bucket tb K t
               | Some b0 \<Rightarrow> if occupant b0 = K then refill tb b0 t else fresh_bucket tb K t)
      in if tokens b \<ge> 1
         then (True, tb\<lparr>slots := (slots tb)(slot \<mapsto> b\<lparr>tokens := tokens b - 1\<rparr>)\<rparr>)
         else (False, tb\<lparr>slots := (slots tb)(slot \<mapsto> b)\<rparr>))"

definition hashlimit_alloc :: "nat \<Rightarrow> real \<Rightarrow> real \<Rightarrow> hashlimit" where
  "hashlimit_alloc cap rate bst =
     \<lparr>capacity = cap, rate_pps = rate, burst = bst, slots = Map.empty\<rparr>"

fun sum_hash :: "key \<Rightarrow> nat" where
  "sum_hash (Scalar n) = n"
| "sum_hash (Bytes bs) = sum_list (map unat bs)"

text \<open>The collaborators at clock reading \<open>t\<close>, with the kernel answering every send by \<open>res\<close>.\<close>

definition ext_at :: "nat \<Rightarrow> send_result \<Rightarrow> hashlimit extern" where
  "ext_at t res =
     \<lparr>hashlimit_touch_hash = (\<lambda>tb k. touch_at sum_hash t tb (Bytes k)),
      hashlimit_touch = (\<lambda>tb n. touch_at sum_hash t tb (Scalar n)),
      raw_send = (\<lambda>_. res)\<rparr>"

text \<open>
  The state \<^verbatim>\<open>main\<close> builds (lines 403-410) from the two rates, with burst 1.9 times
  the rate; the default rates are 1.0 and 10.0 pps.
\<close>

definition main_state :: "real \<Rightarrow> real \<Rightarrow> int \<Rightarrow> int \<Rightarrow> bitmap option \<Rightarrow> hashlimit state" where
  "main_state src_rate iface_rate vb dry pm =
     \<lparr>sources = hashlimit_alloc 8191 src_rate (src_rate * (19 / 10)),
      ifaces = hashlimit_alloc 1 iface_rate (iface_rate * (19 / 10)),
      verbose = vb, dry_run = dry, ports_map = pm\<rparr>"

text \<open>
  A 70-byte frame: Ethernet, IPv4 from 10.0.0.1 (IHL 5, protocol 1), ICMP with the given
  type and code, and the quoted IPv4 header (IHL 5, the given TTL) with 8 bytes of TCP
  whose source port is 443.
\<close>

definition eth_hdr :: frame where
  "eth_hdr = [0x02, 0, 0, 0, 0, 0x01, 0x02, 0, 0, 0, 0, 0x02, 0x08, 0x00]"

definition ip4_hdr :: frame where
  "ip4_hdr = [0x45, 0, 0, 0x38, 0, 0, 0, 0, 0x40, 0x01, 0, 0, 0x0a, 0, 0, 0x01, 0x0a, 0, 0, 0x02]"

definition quoted4 :: "byte \<Rightarrow> frame" where
  "quoted4 ttl =
     [0x45, 0, 0x05, 0xdc, 0, 0, 0x40, 0, ttl, 0x06, 0, 0, 0xc0, 0xa8, 0, 0x01, 0xc6, 0x33, 0x64, 0x01,
      0x01, 0xbb, 0xc0, 0x00, 0, 0, 0, 0x01]"

definition frame4 :: "byte \<Rightarrow> byte \<Rightarrow> byte \<Rightarrow> frame" where
  "frame4 ty code ttl = eth_hdr @ ip4_hdr @ [ty, code, 0, 0, 0, 0, 0x05, 0xdc] @ quoted4 ttl"

text \<open>The same frame sent to the broadcast address.\<close>

definition frame_bcast :: frame where
  "frame_bcast = replicate 6 0xff @ drop 6 (frame4 3 4 0x40)"

text \<open>
  A 94-byte frame: Ethernet, IPv6 from 2001:db8::1 (next header 58), ICMPv6 type 2
  code 0, and 32 quoted bytes.
\<close>

definition eth6_hdr :: frame where
  "eth6_hdr = [0x02, 0, 0, 0, 0, 0x01, 0x02, 0, 0, 0, 0, 0x02, 0x86, 0xdd]"

definition ip6_src :: frame where
  "ip6_src = [0x20, 0x01, 0x0d, 0xb8, 0, 0, 0, 0, 0, 0, 0, 0, 0, 0, 0, 0x01]"

definition ip6_hdr :: frame where
  "ip6_hdr = [0x60, 0, 0, 0, 0, 0x28, 0x3a, 0x40] @ ip6_src @
             [0x20, 0x01, 0x0d, 0xb8, 0, 0, 0, 0, 0, 0, 0, 0, 0, 0, 0, 0x02]"

definition frame6 :: frame where
  "frame6 = eth6_hdr @ ip6_hdr @ [0x02, 0, 0, 0, 0, 0, 0x05, 0x00] @
            [0x60, 0, 0, 0, 0, 0x14, 0x06, 0x40] @
            [0x20, 0x01, 0x0d, 0xb8, 0, 0, 0, 0, 0, 0, 0, 0, 0, 0, 0, 0x02] @
            [0x20, 0x01, 0x0d, 0xb8, 0, 0, 0, 0]"

section \<open>Notions used in the statements\<close>

text \<open>
  The frame after lines 195-208: six bytes \<^verbatim>\<open>0xff\<close>, the original bytes 0-5, and the
  original bytes from offset 12 on.
\<close>

abbreviation rewritten :: "frame \<Rightarrow> frame" where
  "rewritten p \<equiv> replicate 6 0xff @ take 6 p @ drop 12 p"

text \<open>The reasons assigned by classification (lines 127, 156) and by the port filter.\<close>

definition classify_reasons :: "string set" where
  "classify_reasons = {''IPv4 header invalid length'', ''Invalid protocol or too short''}"

definition port_reasons :: "string set" where
  "port_reasons = {''Payload too short'', ''Invalid ICMP payload'',
                   ''Too short to read L4 source port'', ''L4 source port not on whitelist''}"

text \<open>What the \<^verbatim>\<open>reject\<close> label and the transmit path leave behind, for key \<open>k\<close>.\<close>

abbreviation reject_out :: "'h state \<Rightarrow> frame \<Rightarrow> byte list \<Rightarrow> string \<Rightarrow> 'h outcome" where
  "reject_out s p k why \<equiv>
     \<lparr>ret = Return (-1), reason = why, frame_out = p, state_out = s,
      printed = (if verbose s > 2 then [(k, why, Some p)]
                 else if verbose s > 1 then [(k, why, None)] else []),
      sent = []\<rparr>"

abbreviation transmit_out :: "'h extern \<Rightarrow> 'h state \<Rightarrow> frame \<Rightarrow> byte list \<Rightarrow> 'h outcome" where
  "transmit_out ext s pp k \<equiv>
     \<lparr>ret = (if dry_run s = 0 \<and> raw_send ext pp = SendError then Fatal else Return 1),
      reason = ''transmitting'', frame_out = pp, state_out = s,
      printed = (if verbose s > 2 then [(k, ''transmitting'', Some pp)]
                 else if verbose s = 1 then [(k, ''transmitting'', None)] else []),
      sent = (if dry_run s = 0 then [pp] else [])\<rparr>"

text \<open>No port filter is configured, or the configured one passes.\<close>

abbreviation port_ok :: "'h state \<Rightarrow> frame \<Rightarrow> int \<Rightarrow> locals \<Rightarrow> bool" where
  "port_ok s p dl v \<equiv>
     ports_map s = None \<or>
     (\<exists>pm. ports_map s = Some pm \<and> port_filter pm p dl (icmp_offset v) = Some (Pass ()))"

text \<open>
  The port filter in the words of the specification, to be compared with
  \<open>port_filter\<close>: the version nibble is that of the first byte of the inner IP header,
  at \<open>payload_offset\<close>, the IHL is read from that same byte, and the two bytes at the
  L4 offset are the big-endian source port looked up in the bitmap.
\<close>

definition port_check_spec :: "bitmap \<Rightarrow> frame \<Rightarrow> int \<Rightarrow> unit chk option" where
  "port_check_spec pm p l4_offset =
     do {
       hi \<leftarrow> rd p l4_offset;
       lo \<leftarrow> rd p (l4_offset + 1);
       if unat (be16 hi lo) \<in> pm then Some (Pass ())
       else Some (Reject ''L4 source port not on whitelist'')
     }"

definition port_filter_spec :: "bitmap \<Rightarrow> frame \<Rightarrow> int \<Rightarrow> int \<Rightarrow> unit chk option" where
  "port_filter_spec pm p data_len icmp_off =
     (let payload_offset = icmp_off + 8 in
      if data_len < payload_offset + 9 then Some (Reject ''Payload too short'')
      else
        do {
          b \<leftarrow> rd p payload_offset;
          if drop_bit 4 b = 4 then
            port_check_spec pm p (payload_offset + int (unat (b AND 0x0F)) * 4)
          else if drop_bit 4 b = 6 then port_check_spec pm p (payload_offset + 40)
          else Some (Reject ''Invalid ICMP payload'')
        })"

section \<open>The stages on in-bounds frames\<close>

lemma all_ff_in:
  "(\<And>i. i \<in> set js \<Longrightarrow> 0 \<le> i \<and> i < int (length p)) \<Longrightarrow>
   all_ff p js = Some (list_all (\<lambda>i. p ! nat i = 0xff) js)"
  by (induction js) (auto simp: rd_def)

lemma is_broadcast_in:
  assumes "6 \<le> length p"
  shows "is_broadcast p = Some (take 6 p = replicate 6 0xff)"
proof -
  have "is_broadcast p = Some (list_all (\<lambda>i. p ! nat i = 0xff) [0, 1, 2, 3, 4, 5])"
    unfolding is_broadcast_def using assms by (intro all_ff_in) auto
  moreover have "(take 6 p = replicate 6 0xff) = list_all (\<lambda>i. p ! nat i = 0xff) [0, 1, 2, 3, 4, 5]"
  proof -
    have "(take 6 p = replicate 6 0xff) = (\<forall>i<6. p ! i = 0xff)"
      using assms by (auto simp: list_eq_iff_nth_eq)
    also have "\<dots> = (\<forall>i\<in>{0,1,2,3,4,5::nat}. p ! i = 0xff)"
    proof -
      have "{i::nat. i < 6} = {0,1,2,3,4,5}" by auto
      then show ?thesis by blast
    qed
    finally show ?thesis by simp
  qed
  ultimately show ?thesis by simp
qed

lemma eth_demux_in:
  assumes "18 \<le> length p"
  shows "\<exists>t l. eth_demux p = Some (t, l) \<and> (l = 14 \<or> l = 18)"
  using assms by (simp add: eth_demux_def rd_def)

lemma ipv4_block_eq:
  assumes "l = 14 \<or> l = 18" "50 \<le> length p"
  shows "ipv4_block p dl t l v =
     Some (if t = 0x0800 \<and> p ! nat l AND 0xF0 = 0x40 then
             (if int (unat (p ! nat l AND 0x0F)) * 4 < 20 then Reject ''IPv4 header invalid length''
              else if p ! nat (l + 9) = 1 \<and> l + 56 \<le> dl
                then Pass (v\<lparr>icmp_offset := l + int (unat (p ! nat l AND 0x0F)) * 4, valid := 1,
                              hash := Some (l + 12), hash_len := 4\<rparr>)
                else Pass (v\<lparr>icmp_offset := l + int (unat (p ! nat l AND 0x0F)) * 4\<rparr>))
           else Pass v)"
  using assms by (auto simp: ipv4_block_def rd_def Let_def)

lemma ipv6_block_eq:
  assumes "l = 14 \<or> l = 18" "50 \<le> length p"
  shows "ipv6_block p dl t l v =
     Some (if t = 0x86dd \<and> p ! nat l AND 0xF0 = 0x60 then
             (if p ! nat (l + 6) = 58 \<and> l + 80 \<le> dl
              then v\<lparr>icmp_offset := l + 40, valid := 1, hash := Some (l + 8), hash_len := 16\<rparr>
              else v\<lparr>icmp_offset := l + 40\<rparr>)
           else v)"
  using assms by (auto simp: ipv6_block_def rd_def)

lemma classify_eq:
  assumes "eth_demux p = Some (t, l)" "l = 14 \<or> l = 18" "50 \<le> length p"
  shows "classify p dl =
     Some (if t = 0x0800 \<and> p ! nat l AND 0xF0 = 0x40 then
             (if int (unat (p ! nat l AND 0x0F)) * 4 < 20
                then (locals0, Some ''IPv4 header invalid length'')
              else if p ! nat (l + 9) = 1 \<and> l + 56 \<le> dl
                then (\<lparr>icmp_offset = l + int (unat (p ! nat l AND 0x0F)) * 4, valid = 1,
                       hash = Some (l + 12), hash_len = 4\<rparr>, None)
                else (\<lparr>icmp_offset = l + int (unat (p ! nat l AND 0x0F)) * 4, valid = 0,
                       hash = None, hash_len = 0\<rparr>, Some ''Invalid protocol or too short''))
           else if t = 0x86dd \<and> p ! nat l AND 0xF0 = 0x60 then
             (if p ! nat (l + 6) = 58 \<and> l + 80 \<le> dl
                then (\<lparr>icmp_offset = l + 40, valid = 1, hash = Some (l + 8), hash_len = 16\<rparr>, None)
                else (\<lparr>icmp_offset = l + 40, valid = 0, hash = None, hash_len = 0\<rparr>,
                      Some ''Invalid protocol or too short''))
           else (locals0, Some ''Invalid protocol or too short''))"
proof -
  have ne: "(0x0800 :: 16 word) \<noteq> 0x86dd" by simp
  have l0: "0 \<le> l" using assms(2) by auto
  have u: "0 \<le> uint (p ! nat l AND 0x0F)" by simp
  have nn: "\<not> l + uint (p ! nat l AND 0x0F) * 4 < 0" "\<not> l + 40 < 0"
    using l0 u by linarith+
  show ?thesis
    using nn ne
    by (simp add: classify_def assms(1) ipv4_block_eq [OF assms(2,3)]
        ipv6_block_eq [OF assms(2,3)] locals0_def)
qed

lemma classify_split:
  assumes "50 \<le> length p"
  obtains (rej) v why where "classify p dl = Some (v, Some why)" "why \<in> classify_reasons"
      "hash v = None" "icmp_offset v = -1 \<or> 34 \<le> icmp_offset v"
  | (pass) v h where "classify p dl = Some (v, None)" "hash v = Some h" "12 \<le> h"
      "0 \<le> hash_len v" "h + hash_len v \<le> dl" "h + hash_len v \<le> icmp_offset v"
      "34 \<le> icmp_offset v"
proof -
  from assms obtain t l where td: "eth_demux p = Some (t, l)" and l: "l = 14 \<or> l = 18"
    using eth_demux_in [of p] by auto
  note ce = classify_eq [OF td l assms, of dl]
  define x where "x = int (unat (p ! nat l AND 0x0F)) * 4"
  have m1: "''IPv4 header invalid length'' \<in> classify_reasons"
    and m2: "''Invalid protocol or too short'' \<in> classify_reasons"
    by (simp_all add: classify_reasons_def)
  show thesis
  proof (cases "t = 0x0800 \<and> p ! nat l AND 0xF0 = 0x40")
    case v4: True
    show thesis
    proof (cases "x < 20")
      case True
      have c: "classify p dl = Some (locals0, Some ''IPv4 header invalid length'')"
        using v4 True unfolding ce x_def by simp
      show thesis by (rule rej [OF c m1]) (simp_all add: locals0_def)
    next
      case x20: False
      show thesis
      proof (cases "p ! nat (l + 9) = 1 \<and> l + 56 \<le> dl")
        case True
        have c: "classify p dl =
           Some (\<lparr>icmp_offset = l + x, valid = 1, hash = Some (l + 12), hash_len = 4\<rparr>, None)"
          using v4 x20 True unfolding ce x_def by simp
        show thesis using l x20 True by (intro pass [OF c]) auto
      next
        case False
        have c: "classify p dl =
           Some (\<lparr>icmp_offset = l + x, valid = 0, hash = None, hash_len = 0\<rparr>,
                 Some ''Invalid protocol or too short'')"
          using v4 x20 False unfolding ce x_def by simp
        show thesis using l x20 by (intro rej [OF c m2]) auto
      qed
    qed
  next
    case n4: False
    show thesis
    proof (cases "t = 0x86dd \<and> p ! nat l AND 0xF0 = 0x60")
      case v6: True
      show thesis
      proof (cases "p ! nat (l + 6) = 58 \<and> l + 80 \<le> dl")
        case True
        have c: "classify p dl =
           Some (\<lparr>icmp_offset = l + 40, valid = 1, hash = Some (l + 8), hash_len = 16\<rparr>, None)"
          using n4 v6 True unfolding ce by simp
        show thesis using l True by (intro pass [OF c]) auto
      next
        case False
        have c: "classify p dl =
           Some (\<lparr>icmp_offset = l + 40, valid = 0, hash = None, hash_len = 0\<rparr>,
                 Some ''Invalid protocol or too short'')"
          using n4 v6 False unfolding ce by simp
        show thesis using l by (intro rej [OF c m2]) auto
      qed
    next
      case False
      have c: "classify p dl = Some (locals0, Some ''Invalid protocol or too short'')"
        unfolding ce by (simp only: n4 False if_False)
      show thesis by (rule rej [OF c m2]) (simp_all add: locals0_def)
    qed
  qed
qed

lemma wr_loop_in:
  "0 \<le> off \<Longrightarrow> off + int (length bs) \<le> int (length pp) \<Longrightarrow>
   wr_loop pp off bs = Some (take (nat off) pp @ bs @ drop (nat off + length bs) pp)"
proof (induction bs arbitrary: pp off)
  case Nil
  then show ?case by simp
next
  case (Cons b bs)
  have lt: "nat off < length pp" using Cons.prems by simp
  have w: "wr pp off b = Some (pp[nat off := b])"
    using Cons.prems by (simp add: wr_def)
  have n: "nat (off + 1) = Suc (nat off)" using Cons.prems by simp
  have "wr_loop (pp[nat off := b]) (off + 1) bs =
        Some (take (nat (off + 1)) (pp[nat off := b]) @ bs @
              drop (nat (off + 1) + length bs) (pp[nat off := b]))"
    using Cons.prems by (intro Cons.IH) auto
  also have "take (nat (off + 1)) (pp[nat off := b]) = take (nat off) pp @ [b]"
    using lt by (simp add: n take_Suc_conv_app_nth)
  also have "drop (nat (off + 1) + length bs) (pp[nat off := b]) =
             drop (nat off + length (b # bs)) pp"
    by (simp add: n)
  finally show ?case by (simp add: w)
qed

lemma rewrite_macs_in:
  assumes "12 \<le> length p"
  shows "rewrite_macs p = Some (replicate 6 0xff @ take 6 p @ drop 12 p)"
proof -
  have a: "rd_bytes p 0 6 = Some (take 6 p)"
    using assms by (simp add: rd_bytes_def)
  have b: "wr_loop p 0 (replicate 6 0xff) = Some (replicate 6 0xff @ drop 6 p)"
    using assms wr_loop_in [of 0 "replicate 6 0xff" p] by simp
  have c: "wr_loop (replicate 6 0xff @ drop 6 p) 6 (take 6 p) =
           Some (replicate 6 0xff @ take 6 p @ drop 12 p)"
    using assms wr_loop_in [of 6 "take 6 p" "replicate 6 0xff @ drop 6 p"] by simp
  show ?thesis by (simp add: rewrite_macs_def a b c)
qed

lemma rewritten_drop:
  assumes "12 \<le> length p" "12 \<le> h"
  shows "drop h (replicate 6 (0xff::byte) @ take 6 p @ drop 12 p) = drop h p"
proof -
  have "drop h ((replicate 6 (0xff::byte) @ take 6 p) @ drop 12 p) = drop (h - 12) (drop 12 p)"
    using assms by simp
  then show ?thesis using assms by simp
qed

lemma key_bytes_rewritten:
  assumes "12 \<le> length p" "hash v = Some h" "12 \<le> h"
  shows "key_bytes (replicate 6 0xff @ take 6 p @ drop 12 p) v = key_bytes p v"
proof -
  have "drop (nat h) (replicate 6 (0xff::byte) @ take 6 p @ drop 12 p) = drop (nat h) p"
    using assms by (intro rewritten_drop) auto
  then show ?thesis
    using assms by (simp add: key_bytes_def rd_bytes_def)
qed

lemma port_check_in:
  assumes "0 \<le> l4" "dl = int (length p)"
  shows "port_check pm p dl l4 = Some (Reject ''Too short to read L4 source port'') \<or>
         port_check pm p dl l4 = Some (Reject ''L4 source port not on whitelist'') \<or>
         port_check pm p dl l4 = Some (Pass ())"
proof (cases "dl < l4 + 2")
  case True
  then show ?thesis by (simp add: port_check_def)
next
  case False
  then have "rd p l4 = Some (p ! nat l4)" "rd p (l4 + 1) = Some (p ! nat (l4 + 1))"
    using assms by (simp_all add: rd_def)
  then show ?thesis using False by (simp add: port_check_def)
qed

lemma port_filter_in:
  assumes "0 \<le> io" "dl = int (length p)"
  shows "port_filter pm p dl io = Some (Pass ()) \<or>
         (\<exists>why. port_filter pm p dl io = Some (Reject why) \<and> why \<in> port_reasons)"
proof (cases "dl < io + 8 + 9")
  case True
  then have "port_filter pm p dl io = Some (Reject ''Payload too short'')"
    by (simp add: port_filter_def)
  moreover have "''Payload too short'' \<in> port_reasons" by (simp add: port_reasons_def)
  ultimately show ?thesis by blast
next
  case False
  define sel where "sel = p ! nat (io + 8 + 8)"
  define b where "b = p ! nat (io + 8)"
  have r1: "rd p (io + 8 + 8) = Some sel" and r2: "rd p (io + 8) = Some b"
    using False assms by (simp_all add: rd_def sel_def b_def)
  have m1: "''Too short to read L4 source port'' \<in> port_reasons"
    and m2: "''L4 source port not on whitelist'' \<in> port_reasons"
    and m3: "''Invalid ICMP payload'' \<in> port_reasons"
    by (simp_all add: port_reasons_def)
  have pc: "port_check pm p dl l4 = Some (Pass ()) \<or>
      (\<exists>why. port_check pm p dl l4 = Some (Reject why) \<and> why \<in> port_reasons)"
    if "0 \<le> l4" for l4
    using port_check_in [OF that assms(2), of pm] m1 m2 by blast
  have pf: "port_filter pm p dl io =
      (if sel AND 0xF0 = 0x40 then port_check pm p dl (io + 8 + int (unat (b AND 0x0F)) * 4)
       else if sel AND 0xF0 = 0x60 then port_check pm p dl (io + 8 + 40)
       else Some (Reject ''Invalid ICMP payload''))"
    unfolding port_filter_def Let_def using False
    by (simp only: if_False r1 r2 Option.bind.bind_lunit)
  have a: "0 \<le> io + 8 + int (unat (b AND 0x0F)) * 4" and c: "0 \<le> io + 8 + 40"
    using assms by simp_all
  show ?thesis
  proof (cases "sel AND 0xF0 = 0x40")
    case True
    have "port_filter pm p dl io = port_check pm p dl (io + 8 + int (unat (b AND 0x0F)) * 4)"
      unfolding pf using True by simp
    then show ?thesis using pc [OF a] by (simp only:)
  next
    case n4: False
    show ?thesis
    proof (cases "sel AND 0xF0 = 0x60")
      case True
      have "port_filter pm p dl io = port_check pm p dl (io + 8 + 40)"
        unfolding pf using True n4 by simp
      then show ?thesis using pc [OF c] by (simp only:)
    next
      case False
      have "port_filter pm p dl io = Some (Reject ''Invalid ICMP payload'')"
        unfolding pf using False n4 by simp
      then show ?thesis using m3 by blast
    qed
  qed
qed

lemma rd_bytes_all: "dl = int (length p) \<Longrightarrow> rd_bytes p 0 dl = Some p"
  by (simp add: rd_bytes_def)

lemma reject_in:
  assumes "key_bytes p v = Some k" "dl = int (length p)"
  shows "reject s p dl v why =
     Some \<lparr>ret = Return (-1), reason = why, frame_out = p, state_out = s,
           printed = (if verbose s > 2 then [(k, why, Some p)]
                      else if verbose s > 1 then [(k, why, None)] else []),
           sent = []\<rparr>"
  using assms by (simp add: reject_def rd_bytes_all)

lemma transmit_in:
  assumes "key_bytes pp v = Some k" "dl = int (length pp)"
  shows "transmit ext s pp dl v =
     Some \<lparr>ret = (if dry_run s = 0 \<and> raw_send ext pp = SendError then Fatal else Return 1),
           reason = ''transmitting'', frame_out = pp, state_out = s,
           printed = (if verbose s > 2 then [(k, ''transmitting'', Some pp)]
                      else if verbose s = 1 then [(k, ''transmitting'', None)] else []),
           sent = (if dry_run s = 0 then [pp] else [])\<rparr>"
  using assms by (simp add: transmit_def rd_bytes_all)

lemma ratelimit_in:
  assumes "key_bytes pp v = Some k"
  shows "ratelimit ext s pp dl v =
     (let (ok_src, src') = hashlimit_touch_hash ext (sources s) k;
          s1 = s\<lparr>sources := src'\<rparr>
      in if \<not> ok_src then reject s1 pp dl v ''Ratelimited on source IP''
         else
           (let (ok_if, if') = hashlimit_touch ext (ifaces s1) 0;
                s2 = s1\<lparr>ifaces := if'\<rparr>
            in if \<not> ok_if then reject s2 pp dl v ''Ratelimited on outgoing interface''
               else transmit ext s2 pp dl v))"
  using assms by (simp add: ratelimit_def)

lemma handle_packet_early:
  assumes "dl < 50 \<or> take 6 p = replicate 6 0xff"
  shows "handle_packet ext s p dl = Some (early_return s p)"
proof (cases "dl < 50")
  case True
  then show ?thesis by (simp add: handle_packet_def)
next
  case False
  with assms have t: "take 6 p = replicate 6 0xff" by simp
  then have "length (take 6 p) = 6" by simp
  then have "6 \<le> length p" by simp
  then show ?thesis using t by (simp add: handle_packet_def is_broadcast_in)
qed

lemma handle_packet_late:
  assumes "50 \<le> dl" "take 6 p \<noteq> replicate 6 0xff" "dl = int (length p)"
  shows "handle_packet ext s p dl =
     classify p dl \<bind> (\<lambda>(v, rej). case rej of Some why \<Rightarrow> reject s p dl v why
                                     | None \<Rightarrow> forward ext s p dl v)"
proof -
  have "6 \<le> length p" using assms by simp
  then show ?thesis using assms(1,2) by (simp add: handle_packet_def is_broadcast_in)
qed

lemma key_bytes_in:
  assumes "hash v = Some h" "0 \<le> h" "0 \<le> hash_len v" "h + hash_len v \<le> int (length p)"
  shows "key_bytes p v = Some (take (nat (hash_len v)) (drop (nat h) p))"
  using assms by (simp add: key_bytes_def rd_bytes_def)

lemma classify_Some_key:
  assumes "50 \<le> length p" "classify p dl = Some (v, Some why)"
  shows "key_bytes q v = Some []" "why \<in> classify_reasons"
  using assms(1)
  by (cases rule: classify_split [where dl = dl]; use assms(2) in \<open>simp add: key_bytes_def\<close>)+

lemma classify_None_key:
  assumes "50 \<le> length p" "dl = int (length p)" "classify p dl = Some (v, None)"
  shows "\<exists>h. hash v = Some h \<and> 12 \<le> h \<and> 0 \<le> hash_len v \<and> h + hash_len v \<le> dl \<and>
             h + hash_len v \<le> icmp_offset v"
  using assms(1)
  by (cases rule: classify_split [where dl = dl]; use assms(3) in auto)

lemma key_bytes_classified:
  assumes "50 \<le> length p" "dl = int (length p)" "classify p dl = Some (v, None)"
  shows "key_bytes (rewritten p) v = key_bytes p v"
proof -
  from classify_None_key [OF assms] obtain h where "hash v = Some h" "12 \<le> h" by blast
  then show ?thesis using assms(1) by (simp add: key_bytes_rewritten [of p v h])
qed

lemma forward_filtered:
  assumes "ports_map s = Some pm" "port_filter pm p dl (icmp_offset v) = Some (Reject why)"
  shows "forward ext s p dl v = reject s p dl v why"
  using assms by (simp add: forward_def)

lemma forward_limited:
  assumes "port_ok s p dl v" "12 \<le> length p"
  shows "forward ext s p dl v = ratelimit ext s (rewritten p) dl v"
  using assms by (auto simp: forward_def rewrite_macs_in)

lemma hp_unclassified:
  assumes "dl = int (length p)" "50 \<le> dl" "take 6 p \<noteq> replicate 6 0xff"
    "classify p dl = Some (v, Some why)"
  shows "handle_packet ext s p dl = Some (reject_out s p [] why)"
proof -
  have len: "50 \<le> length p" using assms by simp
  have k: "key_bytes p v = Some []" using classify_Some_key(1) [OF len assms(4)] .
  show ?thesis
    by (simp add: handle_packet_late [OF assms(2,3,1)] assms(4) reject_in [OF k assms(1)])
qed

lemma hp_filtered:
  assumes "dl = int (length p)" "50 \<le> dl" "take 6 p \<noteq> replicate 6 0xff"
    "classify p dl = Some (v, None)" "key_bytes p v = Some k"
    "ports_map s = Some pm" "port_filter pm p dl (icmp_offset v) = Some (Reject why)"
  shows "handle_packet ext s p dl = Some (reject_out s p k why)"
  by (simp add: handle_packet_late [OF assms(2,3,1)] assms(4) forward_filtered [OF assms(6,7)]
      reject_in [OF assms(5,1)])

lemma hp_ratelimit:
  assumes "dl = int (length p)" "50 \<le> dl" "take 6 p \<noteq> replicate 6 0xff"
    "classify p dl = Some (v, None)" "port_ok s p dl v"
  shows "handle_packet ext s p dl = ratelimit ext s (rewritten p) dl v"
proof -
  have len: "12 \<le> length p" using assms by simp
  show ?thesis
    by (simp add: handle_packet_late [OF assms(2,3,1)] assms(4) forward_limited [OF assms(5) len])
qed

lemma ratelimit_src_limited:
  assumes "key_bytes pp v = Some k" "dl = int (length pp)"
    "hashlimit_touch_hash ext (sources s) k = (False, src')"
  shows "ratelimit ext s pp dl v =
         Some (reject_out (s\<lparr>sources := src'\<rparr>) pp k ''Ratelimited on source IP'')"
  by (simp add: ratelimit_in [OF assms(1)] assms(3) reject_in [OF assms(1,2)])

lemma ratelimit_if_limited:
  assumes "key_bytes pp v = Some k" "dl = int (length pp)"
    "hashlimit_touch_hash ext (sources s) k = (True, src')"
    "hashlimit_touch ext (ifaces s) 0 = (False, if')"
  shows "ratelimit ext s pp dl v =
         Some (reject_out (s\<lparr>sources := src', ifaces := if'\<rparr>) pp k
                 ''Ratelimited on outgoing interface'')"
  by (simp add: ratelimit_in [OF assms(1)] assms(3,4) reject_in [OF assms(1,2)])

lemma ratelimit_admitted:
  assumes "key_bytes pp v = Some k" "dl = int (length pp)"
    "hashlimit_touch_hash ext (sources s) k = (True, src')"
    "hashlimit_touch ext (ifaces s) 0 = (True, if')"
  shows "ratelimit ext s pp dl v =
         Some (transmit_out ext (s\<lparr>sources := src', ifaces := if'\<rparr>) pp k)"
  by (simp add: ratelimit_in [OF assms(1)] assms(3,4) transmit_in [OF assms(1,2)])

lemma hp_limited_pre:
  assumes "dl = int (length p)" "50 \<le> dl" "classify p dl = Some (v, None)"
    "key_bytes p v = Some k"
  shows "key_bytes (rewritten p) v = Some k" "dl = int (length (rewritten p))"
proof -
  have len: "50 \<le> length p" using assms by simp
  show "key_bytes (rewritten p) v = Some k"
    using key_bytes_classified [OF len assms(1,3)] assms(4) by simp
  show "dl = int (length (rewritten p))" using assms(1) len by simp
qed

lemma hp_src_limited:
  assumes "dl = int (length p)" "50 \<le> dl" "take 6 p \<noteq> replicate 6 0xff"
    "classify p dl = Some (v, None)" "key_bytes p v = Some k" "port_ok s p dl v"
    "hashlimit_touch_hash ext (sources s) k = (False, src')"
  shows "handle_packet ext s p dl =
         Some (reject_out (s\<lparr>sources := src'\<rparr>) (rewritten p) k ''Ratelimited on source IP'')"
  unfolding hp_ratelimit [OF assms(1-4,6)]
  by (rule ratelimit_src_limited [OF hp_limited_pre [OF assms(1,2,4,5)] assms(7)])

lemma hp_if_limited:
  assumes "dl = int (length p)" "50 \<le> dl" "take 6 p \<noteq> replicate 6 0xff"
    "classify p dl = Some (v, None)" "key_bytes p v = Some k" "port_ok s p dl v"
    "hashlimit_touch_hash ext (sources s) k = (True, src')"
    "hashlimit_touch ext (ifaces s) 0 = (False, if')"
  shows "handle_packet ext s p dl =
         Some (reject_out (s\<lparr>sources := src', ifaces := if'\<rparr>) (rewritten p) k
                 ''Ratelimited on outgoing interface'')"
  unfolding hp_ratelimit [OF assms(1-4,6)]
  by (rule ratelimit_if_limited [OF hp_limited_pre [OF assms(1,2,4,5)] assms(7,8)])

lemma hp_admitted:
  assumes "dl = int (length p)" "50 \<le> dl" "take 6 p \<noteq> replicate 6 0xff"
    "classify p dl = Some (v, None)" "key_bytes p v = Some k" "port_ok s p dl v"
    "hashlimit_touch_hash ext (sources s) k = (True, src')"
    "hashlimit_touch ext (ifaces s) 0 = (True, if')"
  shows "handle_packet ext s p dl =
         Some (transmit_out ext (s\<lparr>sources := src', ifaces := if'\<rparr>) (rewritten p) k)"
  unfolding hp_ratelimit [OF assms(1-4,6)]
  by (rule ratelimit_admitted [OF hp_limited_pre [OF assms(1,2,4,5)] assms(7,8)])

lemma handle_packet_paths:
  assumes wf: "dl = int (length p)"
  obtains (early) "dl < 50 \<or> take 6 p = replicate 6 0xff"
      "handle_packet ext s p dl = Some (early_return s p)"
  | (unclassified) v why where "50 \<le> dl" "take 6 p \<noteq> replicate 6 0xff"
      "classify p dl = Some (v, Some why)" "why \<in> classify_reasons"
      "handle_packet ext s p dl = Some (reject_out s p [] why)"
  | (filtered) v k pm why where "50 \<le> dl" "take 6 p \<noteq> replicate 6 0xff"
      "classify p dl = Some (v, None)" "key_bytes p v = Some k"
      "ports_map s = Some pm" "port_filter pm p dl (icmp_offset v) = Some (Reject why)"
      "why \<in> port_reasons"
      "handle_packet ext s p dl = Some (reject_out s p k why)"
  | (src_limited) v k src' where "50 \<le> dl" "take 6 p \<noteq> replicate 6 0xff"
      "classify p dl = Some (v, None)" "key_bytes p v = Some k" "port_ok s p dl v"
      "hashlimit_touch_hash ext (sources s) k = (False, src')"
      "handle_packet ext s p dl =
         Some (reject_out (s\<lparr>sources := src'\<rparr>) (rewritten p) k ''Ratelimited on source IP'')"
  | (if_limited) v k src' if' where "50 \<le> dl" "take 6 p \<noteq> replicate 6 0xff"
      "classify p dl = Some (v, None)" "key_bytes p v = Some k" "port_ok s p dl v"
      "hashlimit_touch_hash ext (sources s) k = (True, src')"
      "hashlimit_touch ext (ifaces s) 0 = (False, if')"
      "handle_packet ext s p dl =
         Some (reject_out (s\<lparr>sources := src', ifaces := if'\<rparr>) (rewritten p) k
                 ''Ratelimited on outgoing interface'')"
  | (admitted) v k src' if' where "50 \<le> dl" "take 6 p \<noteq> replicate 6 0xff"
      "classify p dl = Some (v, None)" "key_bytes p v = Some k" "port_ok s p dl v"
      "hashlimit_touch_hash ext (sources s) k = (True, src')"
      "hashlimit_touch ext (ifaces s) 0 = (True, if')"
      "handle_packet ext s p dl =
         Some (transmit_out ext (s\<lparr>sources := src', ifaces := if'\<rparr>) (rewritten p) k)"
proof (cases "dl < 50 \<or> take 6 p = replicate 6 0xff")
  case True
  then show thesis using handle_packet_early [of dl p ext s] by (intro early) auto
next
  case False
  then have len: "50 \<le> dl" and nb: "take 6 p \<noteq> replicate 6 0xff" by auto
  have len': "50 \<le> length p" using len wf by simp
  from len' show thesis
  proof (cases rule: classify_split [where dl = dl])
    case (rej v why)
    show thesis
      using len nb rej(1,2) hp_unclassified [OF wf len nb rej(1)] by (rule unclassified)
  next
    case (pass v h)
    define k where "k = take (nat (hash_len v)) (drop (nat h) p)"
    have kp: "key_bytes p v = Some k"
      using pass wf unfolding k_def by (intro key_bytes_in) auto
    have io: "0 \<le> icmp_offset v" using pass by simp
    have "port_ok s p dl v \<or>
          (\<exists>pm why. ports_map s = Some pm \<and>
             port_filter pm p dl (icmp_offset v) = Some (Reject why) \<and> why \<in> port_reasons)"
    proof (cases "ports_map s")
      case None
      then show ?thesis by simp
    next
      case (Some pm)
      then show ?thesis using port_filter_in [OF io wf, of pm] by blast
    qed
    then consider (ok) "port_ok s p dl v"
      | (rejd) pm why where "ports_map s = Some pm"
          "port_filter pm p dl (icmp_offset v) = Some (Reject why)" "why \<in> port_reasons"
      by blast
    then show thesis
    proof cases
      case a: (rejd pm why)
      show thesis
        using len nb pass(1) kp a hp_filtered [OF wf len nb pass(1) kp a(1,2)] by (rule filtered)
    next
      case ok
      obtain ok_src src' where a: "hashlimit_touch_hash ext (sources s) k = (ok_src, src')"
        by (cases "hashlimit_touch_hash ext (sources s) k")
      obtain ok_if if' where b: "hashlimit_touch ext (ifaces s) 0 = (ok_if, if')"
        by (cases "hashlimit_touch ext (ifaces s) 0")
      show thesis
      proof (cases ok_src)
        case False
        have a': "hashlimit_touch_hash ext (sources s) k = (False, src')" using a False by simp
        show thesis
          using len nb pass(1) kp ok a' hp_src_limited [OF wf len nb pass(1) kp ok a']
          by (rule src_limited)
      next
        case True
        have a': "hashlimit_touch_hash ext (sources s) k = (True, src')" using a True by simp
        show thesis
        proof (cases ok_if)
          case False
          have b': "hashlimit_touch ext (ifaces s) 0 = (False, if')" using b False by simp
          show thesis
            using len nb pass(1) kp ok a' b' hp_if_limited [OF wf len nb pass(1) kp ok a' b']
            by (rule if_limited)
        next
          case ok': True
          have b': "hashlimit_touch ext (ifaces s) 0 = (True, if')" using b ok' by simp
          show thesis
            using len nb pass(1) kp ok a' b' hp_admitted [OF wf len nb pass(1) kp ok a' b']
            by (rule admitted)
        qed
      qed
    qed
  qed
qed

lemma frame4_length: "length (frame4 ty code ttl) = 70"
  by (simp add: frame4_def eth_hdr_def ip4_hdr_def quoted4_def)

lemma rewritten_nth:
  assumes "12 \<le> length p" "i < length p"
  shows "rewritten p ! i = (if i < 6 then 0xff else if i < 12 then p ! (i - 6) else p ! i)"
  using assms by (auto simp: nth_append)

lemma reasons_distinct:
  "''unknown'' \<notin> classify_reasons" "''unknown'' \<notin> port_reasons"
  "''transmitting'' \<notin> classify_reasons" "''transmitting'' \<notin> port_reasons"
  "''Ratelimited on source IP'' \<notin> classify_reasons"
  "''Ratelimited on source IP'' \<notin> port_reasons"
  "''Ratelimited on outgoing interface'' \<notin> classify_reasons"
  "''Ratelimited on outgoing interface'' \<notin> port_reasons"
  by (simp_all add: classify_reasons_def port_reasons_def)

lemma handle_packet_total:
  "dl = int (length p) \<Longrightarrow> \<exists>r. handle_packet ext s p dl = Some r"
  by (cases rule: handle_packet_paths [where ext = ext and s = s]) auto

lemma handle_packet_the:
  "dl = int (length p) \<Longrightarrow> handle_packet ext s p dl = Some (the (handle_packet ext s p dl))"
  using handle_packet_total [of dl p ext s] by auto

section \<open>The sample frames\<close>

lemmas frame4_defs = frame4_def eth_hdr_def ip4_hdr_def quoted4_def

lemma frame4_classify:
  "classify (frame4 ty code ttl) 70 =
     Some (\<lparr>icmp_offset = 34, valid = 1, hash = Some 26, hash_len = 4\<rparr>, None)"
  by (simp add: classify_def eth_demux_def ipv4_block_def ipv6_block_def rd_def be16_def
      locals0_def frame4_defs)

lemma frame4_key:
  "key_bytes (frame4 ty code ttl) \<lparr>icmp_offset = 34, valid = 1, hash = Some 26, hash_len = 4\<rparr> =
     Some [0x0a, 0, 0, 0x01]"
  by (simp add: key_bytes_def rd_bytes_def frame4_defs)

lemma frame4_not_bcast: "take 6 (frame4 ty code ttl) \<noteq> replicate 6 0xff"
proof
  assume "take 6 (frame4 ty code ttl) = replicate 6 0xff"
  then have "hd (take 6 (frame4 ty code ttl)) = hd (replicate 6 (0xff::byte))" by simp
  then show False by (simp add: frame4_defs)
qed

lemma main_touch_src:
  "hashlimit_touch_hash (ext_at t res) (sources (main_state sr ir vb dry pm)) k =
     (1 \<le> sr * (19 / 10),
      snd (hashlimit_touch_hash (ext_at t res) (sources (main_state sr ir vb dry pm)) k))"
  by (simp add: ext_at_def main_state_def touch_at_def hashlimit_alloc_def fresh_bucket_def Let_def)

lemma main_touch_if:
  "hashlimit_touch (ext_at t res) (ifaces (main_state sr ir vb dry pm)) n =
     (1 \<le> ir * (19 / 10),
      snd (hashlimit_touch (ext_at t res) (ifaces (main_state sr ir vb dry pm)) n))"
  by (simp add: ext_at_def main_state_def touch_at_def hashlimit_alloc_def fresh_bucket_def Let_def)

lemma sample_simps:
  "raw_send (ext_at t res) f = res"
  "dry_run (main_state sr ir vb dry pm) = dry"
  "verbose (main_state sr ir vb dry pm) = vb"
  "ports_map (main_state sr ir vb dry pm) = pm"
  by (simp_all add: ext_at_def main_state_def)

lemma frame4_wf: "70 = int (length (frame4 ty code ttl))"
  by (simp add: frame4_length)

lemma frame4_admitted:
  assumes "1 \<le> sr * (19 / 10)" "1 \<le> ir * (19 / 10)"
  shows "handle_packet (ext_at t res) (main_state sr ir vb dry None) (frame4 ty code ttl) 70 =
     Some (transmit_out (ext_at t res)
       ((main_state sr ir vb dry None)
          \<lparr>sources := snd (hashlimit_touch_hash (ext_at t res)
                              (sources (main_state sr ir vb dry None)) [0x0a, 0, 0, 0x01]),
           ifaces := snd (hashlimit_touch (ext_at t res) (ifaces (main_state sr ir vb dry None)) 0)\<rparr>)
       (rewritten (frame4 ty code ttl)) [0x0a, 0, 0, 0x01])"
proof (rule hp_admitted [OF frame4_wf _ frame4_not_bcast frame4_classify frame4_key])
  show "(50::int) \<le> 70" by simp
  show "port_ok (main_state sr ir vb dry None) (frame4 ty code ttl) 70
          \<lparr>icmp_offset = 34, valid = 1, hash = Some 26, hash_len = 4\<rparr>"
    by (simp add: sample_simps)
  show "hashlimit_touch_hash (ext_at t res) (sources (main_state sr ir vb dry None)) [0x0a, 0, 0, 0x01] =
        (True, snd (hashlimit_touch_hash (ext_at t res)
                      (sources (main_state sr ir vb dry None)) [0x0a, 0, 0, 0x01]))"
    using main_touch_src [of t res sr ir vb dry None "[0x0a, 0, 0, 0x01]"] assms(1) by simp
  show "hashlimit_touch (ext_at t res) (ifaces (main_state sr ir vb dry None)) 0 =
        (True, snd (hashlimit_touch (ext_at t res) (ifaces (main_state sr ir vb dry None)) 0))"
    using main_touch_if [of t res sr ir vb dry None 0] assms(2) by simp
qed

lemma frame4_src_limited:
  assumes "sr * (19 / 10) < 1"
  shows "handle_packet (ext_at t res) (main_state sr ir vb dry None) (frame4 ty code ttl) 70 =
     Some (reject_out
       ((main_state sr ir vb dry None)
          \<lparr>sources := snd (hashlimit_touch_hash (ext_at t res)
                              (sources (main_state sr ir vb dry None)) [0x0a, 0, 0, 0x01])\<rparr>)
       (rewritten (frame4 ty code ttl)) [0x0a, 0, 0, 0x01] ''Ratelimited on source IP'')"
proof (rule hp_src_limited [OF frame4_wf _ frame4_not_bcast frame4_classify frame4_key])
  show "(50::int) \<le> 70" by simp
  show "port_ok (main_state sr ir vb dry None) (frame4 ty code ttl) 70
          \<lparr>icmp_offset = 34, valid = 1, hash = Some 26, hash_len = 4\<rparr>"
    by (simp add: sample_simps)
  show "hashlimit_touch_hash (ext_at t res) (sources (main_state sr ir vb dry None)) [0x0a, 0, 0, 0x01] =
        (False, snd (hashlimit_touch_hash (ext_at t res)
                       (sources (main_state sr ir vb dry None)) [0x0a, 0, 0, 0x01]))"
    using main_touch_src [of t res sr ir vb dry None "[0x0a, 0, 0, 0x01]"] assms(1) by simp
qed

lemma frame4_if_limited:
  assumes "1 \<le> sr * (19 / 10)" "ir * (19 / 10) < 1"
  shows "handle_packet (ext_at t res) (main_state sr ir vb dry None) (frame4 ty code ttl) 70 =
     Some (reject_out
       ((main_state sr ir vb dry None)
          \<lparr>sources := snd (hashlimit_touch_hash (ext_at t res)
                              (sources (main_state sr ir vb dry None)) [0x0a, 0, 0, 0x01]),
           ifaces := snd (hashlimit_touch (ext_at t res) (ifaces (main_state sr ir vb dry None)) 0)\<rparr>)
       (rewritten (frame4 ty code ttl)) [0x0a, 0, 0, 0x01] ''Ratelimited on outgoing interface'')"
proof (rule hp_if_limited [OF frame4_wf _ frame4_not_bcast frame4_classify frame4_key])
  show "(50::int) \<le> 70" by simp
  show "port_ok (main_state sr ir vb dry None) (frame4 ty code ttl) 70
          \<lparr>icmp_offset = 34, valid = 1, hash = Some 26, hash_len = 4\<rparr>"
    by (simp add: sample_simps)
  show "hashlimit_touch_hash (ext_at t res) (sources (main_state sr ir vb dry None)) [0x0a, 0, 0, 0x01] =
        (True, snd (hashlimit_touch_hash (ext_at t res)
                      (sources (main_state sr ir vb dry None)) [0x0a, 0, 0, 0x01]))"
    using main_touch_src [of t res sr ir vb dry None "[0x0a, 0, 0, 0x01]"] assms(1) by simp
  show "hashlimit_touch (ext_at t res) (ifaces (main_state sr ir vb dry None)) 0 =
        (False, snd (hashlimit_touch (ext_at t res) (ifaces (main_state sr ir vb dry None)) 0))"
    using main_touch_if [of t res sr ir vb dry None 0] assms(2) by simp
qed

lemma rewritten_neq:
  assumes "12 \<le> length p" "take 6 p \<noteq> replicate 6 0xff"
  shows "rewritten p \<noteq> p"
proof
  assume "rewritten p = p"
  then have "take 6 (rewritten p) = take 6 p" by simp
  then show False using assms by simp
qed

lemma frame4_rewritten_hd: "rewritten (frame4 ty code ttl) ! 0 = 0xff" "frame4 ty code ttl ! 0 = 0x02"
  by (simp_all add: frame4_defs nth_append)

lemma frame_bcast_early:
  "handle_packet ext s frame_bcast dl = Some (early_return s frame_bcast)"
  by (rule handle_packet_early) (simp add: frame_bcast_def)

section \<open>Bytes the handler does not read\<close>

lemma high_nibble_mask: "(b::byte) AND 0xF0 = push_bit 4 (drop_bit 4 b)"
proof -
  have m: "(0xF0::byte) = push_bit 4 (mask 4)"
    by (simp add: mask_eq_exp_minus_1 push_bit_eq_mult)
  show ?thesis
    unfolding m by (rule bit_eqI) (auto simp: bit_simps)
qed

lemma high_nibble_drop: "drop_bit 4 ((b::byte) AND 0xF0) = drop_bit 4 b"
  unfolding high_nibble_mask by (rule bit_eqI) (auto simp: bit_simps dest: bit_imp_le_length)

lemma version_nibble:
  "((b::byte) AND 0xF0 = 0x60) = (drop_bit 4 b = 6)"
  "((b::byte) AND 0xF0 = 0x40) = (drop_bit 4 b = 4)"
proof -
  have "drop_bit 4 b = 6" if "b AND 0xF0 = 0x60"
  proof -
    have "drop_bit 4 (b AND 0xF0) = drop_bit 4 (0x60::byte)" using that by (simp only:)
    then have "drop_bit 4 b = drop_bit 4 (0x60::byte)" by (simp only: high_nibble_drop)
    also have "drop_bit 4 (0x60::byte) = 6" by (simp add: drop_bit_eq_div)
    finally show ?thesis .
  qed
  moreover have "b AND 0xF0 = 0x60" if "drop_bit 4 b = 6"
    unfolding high_nibble_mask that by (simp add: push_bit_eq_mult)
  ultimately show "((b::byte) AND 0xF0 = 0x60) = (drop_bit 4 b = 6)" by blast
  have "drop_bit 4 b = 4" if "b AND 0xF0 = 0x40"
  proof -
    have "drop_bit 4 (b AND 0xF0) = drop_bit 4 (0x40::byte)" using that by (simp only:)
    then have "drop_bit 4 b = drop_bit 4 (0x40::byte)" by (simp only: high_nibble_drop)
    also have "drop_bit 4 (0x40::byte) = 4" by (simp add: drop_bit_eq_div)
    finally show ?thesis .
  qed
  moreover have "b AND 0xF0 = 0x40" if "drop_bit 4 b = 4"
    unfolding high_nibble_mask that by (simp add: push_bit_eq_mult)
  ultimately show "((b::byte) AND 0xF0 = 0x40) = (drop_bit 4 b = 4)" by blast
qed

lemma rd_update_other:
  "i \<noteq> int m \<Longrightarrow> rd (p[m := x]) i = rd p i"
  by (auto simp: rd_def)

lemma key_bytes_update:
  assumes "hash v = Some h" "0 \<le> h" "0 \<le> hash_len v" "h + hash_len v \<le> int m"
  shows "key_bytes (p[m := x]) v = key_bytes p v"
proof -
  have a: "nat h \<le> m" using assms by simp
  have b: "nat (hash_len v) \<le> m - nat h" using assms by simp
  have "take (nat (hash_len v)) (drop (nat h) (p[m := x])) = take (nat (hash_len v)) (drop (nat h) p)"
    by (simp add: drop_update_swap [OF a] take_update_cancel [OF b])
  then show ?thesis using assms(1) by (simp add: key_bytes_def rd_bytes_def)
qed

lemma port_check_update:
  assumes "int m < l4"
  shows "port_check pm (p[m := x]) dl l4 = port_check pm p dl l4"
  using assms by (simp add: port_check_def rd_update_other)

lemma port_filter_update:
  assumes "int m < io + 8"
  shows "port_filter pm (p[m := x]) dl io = port_filter pm p dl io"
proof -
  have a: "int m < io + 8 + int (unat (b AND 0x0F)) * 4" for b :: byte
  proof -
    have "0 \<le> int (unat (b AND 0x0F))" by (rule of_nat_0_le_iff)
    then show ?thesis using assms by linarith
  qed
  have b: "int m < io + 8 + 40" "io + 8 + 8 \<noteq> int m" "io + 8 \<noteq> int m" using assms by simp_all
  show ?thesis
    unfolding port_filter_def Let_def rd_update_other [OF b(2)] rd_update_other [OF b(3)]
      port_check_update [OF a] port_check_update [OF b(1)] ..
qed

lemma classify_update:
  assumes "50 \<le> length p" "28 \<le> m"
  shows "classify (p[m := x]) dl = classify p dl"
proof -
  from assms obtain t l where td: "eth_demux p = Some (t, l)" and l: "l = 14 \<or> l = 18"
    using eth_demux_in [of p] by auto
  have ne: "12 \<noteq> int m" "13 \<noteq> int m" "16 \<noteq> int m" "17 \<noteq> int m"
    using assms(2) by auto
  have "eth_demux (p[m := x]) = eth_demux p"
    unfolding eth_demux_def rd_update_other [OF ne(1)] rd_update_other [OF ne(2)]
      rd_update_other [OF ne(3)] rd_update_other [OF ne(4)] ..
  then have td': "eth_demux (p[m := x]) = Some (t, l)" using td by simp
  have len': "50 \<le> length (p[m := x])" using assms(1) by simp
  have n: "p[m := x] ! nat l = p ! nat l" "p[m := x] ! nat (l + 9) = p ! nat (l + 9)"
    "p[m := x] ! nat (l + 6) = p ! nat (l + 6)"
    using l assms(2) by auto
  show ?thesis
    unfolding classify_eq [OF td l assms(1)] classify_eq [OF td' l len'] n ..
qed

section \<open>More sample frames\<close>

lemmas frame6_defs = frame6_def eth6_hdr_def ip6_hdr_def ip6_src_def

lemma frame6_length: "length frame6 = 94"
  by (simp add: frame6_defs)

lemma frame6_demux: "eth_demux frame6 = Some (0x86dd, 14)"
  by (simp add: eth_demux_def rd_def be16_def frame6_defs)

lemma frame6_fields:
  "drop_bit 4 (frame6 ! nat 14) = 6" "frame6 ! nat (14 + 6) = 58"
  "take 16 (drop (nat (14 + 8)) frame6) = ip6_src"
  by (simp_all add: frame6_defs drop_bit_eq_div)

lemma frame4_update: "(frame4 3 4 ttl)[34 := ty, 35 := code] = frame4 ty code ttl"
  by (simp add: frame4_defs)

lemma frame4_port_filter_ttl63:
  "port_filter {443} (frame4 3 4 0x3f) 70 34 = Some (Reject ''Invalid ICMP payload'')"
  by (simp add: port_filter_def rd_def frame4_defs)

lemma frame4_port_filter_ttl64:
  "port_filter {443} (frame4 3 4 0x40) 70 34 = Some (Pass ())"
  by (simp add: port_filter_def port_check_def rd_def be16_def bitmap_get_def frame4_defs)

lemma frame4_port_filter_spec:
  "port_filter_spec {443} (frame4 3 4 0x3f) 70 34 = Some (Pass ())"
  by (simp add: port_filter_spec_def port_check_spec_def rd_def be16_def frame4_defs
      drop_bit_eq_div)

lemma frame4_inner:
  "frame4 ty code ttl ! 42 = 0x45" "frame4 ty code ttl ! 50 = ttl"
  "be16 (frame4 ty code ttl ! 62) (frame4 ty code ttl ! 63) = 443"
  by (simp_all add: frame4_defs be16_def)

lemma frame4_filtered_ttl63:
  "handle_packet (ext_at 0 SendOk) (main_state 1 10 0 0 (Some {443})) (frame4 3 4 0x3f) 70 =
     Some (reject_out (main_state 1 10 0 0 (Some {443})) (frame4 3 4 0x3f) [0x0a, 0, 0, 0x01]
             ''Invalid ICMP payload'')"
proof (rule hp_filtered [OF frame4_wf _ frame4_not_bcast frame4_classify frame4_key])
  show "(50::int) \<le> 70" by simp
  show "ports_map (main_state 1 10 0 0 (Some {443})) = Some {443}" by (simp add: sample_simps)
  show "port_filter {443} (frame4 3 4 0x3f) 70
          (icmp_offset \<lparr>icmp_offset = 34, valid = 1, hash = Some 26, hash_len = 4\<rparr>) =
        Some (Reject ''Invalid ICMP payload'')"
    by (simp add: frame4_port_filter_ttl63)
qed

section \<open>The claims\<close>

text \<open>
  C1. Every frame that \<open>handle_packet\<close> hands to \<^verbatim>\<open>send\<close> is the captured frame with
  bytes 0-5 set to \<^verbatim>\<open>0xff\<close> and bytes 6-11 set to the captured bytes 0-5; every byte at
  offset 12 or more is the captured one. A call that returns 1 outside dry-run mode
  has sent exactly that frame.
\<close>

theorem admitted_frame_egress:
  assumes "data_len = int (length p)" and "handle_packet ext s p data_len = Some r"
  shows "(ret r = Return 1 \<and> dry_run s = 0 \<longrightarrow>
            sent r = [replicate 6 0xff @ take 6 p @ drop 12 p]) \<and>
         (\<forall>f \<in> set (sent r). length f = length p \<and>
            (\<forall>i < length p. f ! i = (if i < 6 then 0xff else if i < 12 then p ! (i - 6) else p ! i)))"
  using assms(1)
proof (cases rule: handle_packet_paths [where ext = ext and s = s])
  case early
  then show ?thesis using assms(2) by (auto simp: early_return_def)
next
  case (unclassified v why)
  then show ?thesis using assms(2) by auto
next
  case (filtered v k pm why)
  then show ?thesis using assms(2) by auto
next
  case (src_limited v k src')
  then show ?thesis using assms(2) by auto
next
  case (if_limited v k src' if')
  then show ?thesis using assms(2) by auto
next
  case (admitted v k src' if')
  have len: "12 \<le> length p" using admitted(1) assms(1) by simp
  have r: "r = transmit_out ext (s\<lparr>sources := src', ifaces := if'\<rparr>) (rewritten p) k"
    using admitted(8) assms(2) by simp
  have n: "\<forall>i < length p. rewritten p ! i =
             (if i < 6 then 0xff else if i < 12 then p ! (i - 6) else p ! i)"
    using rewritten_nth [OF len] by blast
  have l: "length (rewritten p) = length p" using len by simp
  show ?thesis unfolding r using n l by simp
qed

theorem admitted_frame_egress_witness:
  "70 = int (length (frame4 3 4 0x40)) \<and>
   ret (the (handle_packet (ext_at 0 SendOk) (main_state 1 10 1 0 None) (frame4 3 4 0x40) 70)) = Return 1 \<and>
   dry_run (main_state 1 10 1 0 None) = 0 \<and>
   sent (the (handle_packet (ext_at 0 SendOk) (main_state 1 10 1 0 None) (frame4 3 4 0x40) 70)) =
     [replicate 6 0xff @ take 6 (frame4 3 4 0x40) @ drop 12 (frame4 3 4 0x40)]"
proof -
  have h1: "70 = int (length (frame4 3 4 0x40))" by (simp add: frame4_length)
  have h2: "ret (the (handle_packet (ext_at 0 SendOk) (main_state 1 10 1 0 None) (frame4 3 4 0x40) 70)) = Return 1"
    by (simp add: frame4_admitted sample_simps)
  have h3: "dry_run (main_state 1 10 1 0 None) = 0" by (simp add: sample_simps)
  show ?thesis
    using h1 h2 h3
      admitted_frame_egress [OF h1 handle_packet_the [OF h1], of "ext_at 0 SendOk"
        "main_state 1 10 1 0 None"]
    by blast
qed

text \<open>
  C2 (as stated, refuted). A frame that the per-source limiter rejects has been
  rewritten: with \<^verbatim>\<open>--src-rate=0.5\<close> the first frame of a source is rejected with
  ``Ratelimited on source IP'', and byte 0 of the buffer is \<^verbatim>\<open>0xff\<close> where the captured
  frame has \<^verbatim>\<open>0x02\<close>.
\<close>

theorem rate_limited_frame_is_rewritten:
  "handle_packet (ext_at 0 SendOk) (main_state (1 / 2) 10 0 0 None) (frame4 3 4 0x40) 70 \<noteq> None \<and>
   ret (the (handle_packet (ext_at 0 SendOk) (main_state (1 / 2) 10 0 0 None) (frame4 3 4 0x40) 70)) =
     Return (-1) \<and>
   reason (the (handle_packet (ext_at 0 SendOk) (main_state (1 / 2) 10 0 0 None) (frame4 3 4 0x40) 70)) =
     ''Ratelimited on source IP'' \<and>
   frame_out (the (handle_packet (ext_at 0 SendOk) (main_state (1 / 2) 10 0 0 None)
                     (frame4 3 4 0x40) 70)) ! 0 = 0xff \<and>
   frame4 3 4 0x40 ! 0 = 0x02"
  by (simp add: frame4_src_limited frame4_rewritten_hd)

text \<open>
  C2 (amended). The rewrite of the Ethernet addresses is performed after the length
  guard, the broadcast guard, classification and the port whitelist have passed, and
  before the two rate limiters. A frame rejected before the rate limiters has all of
  its bytes unchanged; a frame rejected by the per-source or the per-interface limiter
  (and an admitted one) has bytes 0-5 set to \<^verbatim>\<open>0xff\<close> and bytes 6-11 set to the captured
  bytes 0-5, so the buffer differs from the captured frame. On every path the length
  and the bytes at offset 12 or more are unchanged.
\<close>

theorem rewrite_precedes_rate_limit:
  assumes "data_len = int (length p)" and "handle_packet ext s p data_len = Some r"
  shows "frame_out r =
           (if reason r = ''Ratelimited on source IP'' \<or>
               reason r = ''Ratelimited on outgoing interface'' \<or> reason r = ''transmitting''
            then replicate 6 0xff @ take 6 p @ drop 12 p else p) \<and>
         (reason r = ''Ratelimited on source IP'' \<or> reason r = ''Ratelimited on outgoing interface''
            \<longrightarrow> ret r = Return (-1) \<and> frame_out r \<noteq> p) \<and>
         length (frame_out r) = length p \<and>
         (\<forall>i. 12 \<le> i \<and> i < length p \<longrightarrow> frame_out r ! i = p ! i)"
  using assms(1)
proof (cases rule: handle_packet_paths [where ext = ext and s = s])
  case early
  then show ?thesis using assms(2) by (simp add: early_return_def)
next
  case (unclassified v why)
  have "why \<noteq> ''Ratelimited on source IP''" "why \<noteq> ''Ratelimited on outgoing interface''"
    "why \<noteq> ''transmitting''"
    using unclassified(4) reasons_distinct(3,5,7) by auto
  then show ?thesis using unclassified(5) assms(2) by simp
next
  case (filtered v k pm why)
  have "why \<noteq> ''Ratelimited on source IP''" "why \<noteq> ''Ratelimited on outgoing interface''"
    "why \<noteq> ''transmitting''"
    using filtered(7) reasons_distinct(4,6,8) by auto
  then show ?thesis using filtered(8) assms(2) by simp
next
  case (src_limited v k src')
  have len: "12 \<le> length p" using src_limited(1) assms(1) by simp
  have n: "\<forall>i. 12 \<le> i \<and> i < length p \<longrightarrow> rewritten p ! i = p ! i"
    using rewritten_nth [OF len] by auto
  show ?thesis
    using src_limited(7) assms(2) rewritten_neq [OF len src_limited(2)] n len by simp
next
  case (if_limited v k src' if')
  have len: "12 \<le> length p" using if_limited(1) assms(1) by simp
  have n: "\<forall>i. 12 \<le> i \<and> i < length p \<longrightarrow> rewritten p ! i = p ! i"
    using rewritten_nth [OF len] by auto
  show ?thesis
    using if_limited(8) assms(2) rewritten_neq [OF len if_limited(2)] n len by simp
next
  case (admitted v k src' if')
  have len: "12 \<le> length p" using admitted(1) assms(1) by simp
  have n: "\<forall>i. 12 \<le> i \<and> i < length p \<longrightarrow> rewritten p ! i = p ! i"
    using rewritten_nth [OF len] by auto
  show ?thesis
    using admitted(8) assms(2) n len by simp
qed

theorem rewrite_precedes_rate_limit_witness:
  "70 = int (length (frame4 3 4 0x40)) \<and>
   reason (the (handle_packet (ext_at 0 SendOk) (main_state (1 / 2) 10 0 0 None) (frame4 3 4 0x40) 70)) =
     ''Ratelimited on source IP'' \<and>
   frame_out (the (handle_packet (ext_at 0 SendOk) (main_state (1 / 2) 10 0 0 None)
                     (frame4 3 4 0x40) 70)) =
     replicate 6 0xff @ take 6 (frame4 3 4 0x40) @ drop 12 (frame4 3 4 0x40)"
proof -
  let ?X = "handle_packet (ext_at 0 SendOk) (main_state (1 / 2) 10 0 0 None) (frame4 3 4 0x40) 70"
  have h1: "70 = int (length (frame4 3 4 0x40))" by (rule frame4_wf)
  have h2: "?X = Some (the ?X)" by (rule handle_packet_the [OF h1])
  have h3: "reason (the ?X) = ''Ratelimited on source IP''" by (simp add: frame4_src_limited)
  show ?thesis using h1 h3 rewrite_precedes_rate_limit [OF h1 h2] by simp
qed

text \<open>
  C3. The claim does not hold for the code: the port filter selects the inner IP version
  from the byte at \<open>payload_offset + 8\<close> (line 170), not from the first byte of the
  inner header at \<open>payload_offset\<close>, where it then reads the IHL (line 173). For the
  ICMP error quoting an IPv4 header (version 4, IHL 5) with TTL 63 and TCP source port
  443, with 443 on the whitelist, the filter as the claim words it passes and the code
  rejects with ``Invalid ICMP payload''; the same frame with TTL 64 passes.
\<close>

theorem port_filter_version_from_wrong_byte:
  "frame4 3 4 0x3f ! 42 = 0x45 \<and> frame4 3 4 0x3f ! 50 = 0x3f \<and>
   be16 (frame4 3 4 0x3f ! 62) (frame4 3 4 0x3f ! 63) = 443 \<and>
   port_filter_spec {443} (frame4 3 4 0x3f) 70 34 = Some (Pass ()) \<and>
   port_filter {443} (frame4 3 4 0x3f) 70 34 = Some (Reject ''Invalid ICMP payload'') \<and>
   port_filter {443} (frame4 3 4 0x40) 70 34 = Some (Pass ()) \<and>
   handle_packet (ext_at 0 SendOk) (main_state 1 10 0 0 (Some {443})) (frame4 3 4 0x3f) 70 =
     Some \<lparr>ret = Return (-1), reason = ''Invalid ICMP payload'', frame_out = frame4 3 4 0x3f,
           state_out = main_state 1 10 0 0 (Some {443}), printed = [], sent = []\<rparr>"
  by (simp add: frame4_inner frame4_port_filter_spec frame4_port_filter_ttl63
      frame4_port_filter_ttl64 frame4_filtered_ttl63 sample_simps)

text \<open>
  C4. A frame whose destination MAC (bytes 0-5) is \<open>ff:ff:ff:ff:ff:ff\<close> is never
  admitted: \<open>handle_packet\<close> returns -1 before classification, with the frame and both
  rate-limit tables unchanged, nothing printed and nothing sent.
\<close>

theorem broadcast_never_admitted:
  "take 6 p = replicate 6 0xff \<Longrightarrow>
   handle_packet ext s p data_len =
     Some \<lparr>ret = Return (-1), reason = ''unknown'', frame_out = p, state_out = s,
           printed = [], sent = []\<rparr>"
  using handle_packet_early [of data_len p ext s] by (simp add: early_return_def)

theorem broadcast_never_admitted_witness:
  "take 6 frame_bcast = replicate 6 0xff \<and>
   handle_packet (ext_at 0 SendOk) (main_state 1 10 3 0 None) frame_bcast 70 =
     Some \<lparr>ret = Return (-1), reason = ''unknown'', frame_out = frame_bcast,
           state_out = main_state 1 10 3 0 None, printed = [], sent = []\<rparr>"
proof -
  have h: "take 6 frame_bcast = replicate 6 0xff" by (simp add: frame_bcast_def)
  show ?thesis using h broadcast_never_admitted [OF h] by simp
qed

text \<open>
  C5. With EtherType \<open>eth_type\<close> and L3 offset \<open>l3\<close> as the L2 demux finds them, a frame
  passes classification as IPv6 (with a 16-byte source key) exactly when the EtherType
  is \<^verbatim>\<open>0x86dd\<close>, the version nibble of the byte at \<open>l3\<close> is 6, the next-header byte
  at \<open>l3 + 6\<close> is 58 and \<open>data_len \<ge> l3 + 40 + 8 + 32\<close>; a frame with EtherType
  \<^verbatim>\<open>0x86dd\<close> passes classification at all exactly under the last three conditions.
  The ICMP offset is then \<open>l3 + 40\<close> and the rate-limit key is the 16 bytes at \<open>l3 + 8\<close>.
\<close>

theorem ipv6_classification:
  assumes "data_len = int (length p)" and "50 \<le> data_len"
    and "eth_demux p = Some (eth_type, l3)"
  shows
    "((\<exists>v. classify p data_len = Some (v, None) \<and> hash_len v = 16) =
        (eth_type = 0x86dd \<and> drop_bit 4 (p ! nat l3) = 6 \<and> p ! nat (l3 + 6) = 58 \<and>
         l3 + 40 + 8 + 32 \<le> data_len)) \<and>
     (eth_type = 0x86dd \<longrightarrow>
        (\<exists>v. classify p data_len = Some (v, None)) =
        (drop_bit 4 (p ! nat l3) = 6 \<and> p ! nat (l3 + 6) = 58 \<and> l3 + 40 + 8 + 32 \<le> data_len)) \<and>
     (\<forall>v. classify p data_len = Some (v, None) \<and> hash_len v = 16 \<longrightarrow>
        icmp_offset v = l3 + 40 \<and> hash v = Some (l3 + 8) \<and>
        key_bytes p v = Some (take 16 (drop (nat (l3 + 8)) p)))"
proof -
  have len: "50 \<le> length p" using assms(1,2) by simp
  have l: "l3 = 14 \<or> l3 = 18" using eth_demux_in [of p] assms(3) len by auto
  note ce = classify_eq [OF assms(3) l len, of data_len]
  have ne: "(0x0800 :: 16 word) \<noteq> 0x86dd" by simp
  define ok6 where "ok6 \<longleftrightarrow> p ! nat l3 AND 0xF0 = 0x60 \<and> p ! nat (l3 + 6) = 58 \<and> l3 + 80 \<le> data_len"
  have ok6: "ok6 = (drop_bit 4 (p ! nat l3) = 6 \<and> p ! nat (l3 + 6) = 58 \<and>
                    l3 + 40 + 8 + 32 \<le> data_len)"
    unfolding ok6_def version_nibble(1) by auto
  have kb: "key_bytes p \<lparr>icmp_offset = l3 + 40, valid = 1, hash = Some (l3 + 8), hash_len = 16\<rparr> =
            Some (take 16 (drop (nat (l3 + 8)) p))" if "l3 + 80 \<le> data_len"
    using that l assms(1) by (auto simp: key_bytes_def rd_bytes_def)
  show ?thesis
  proof (cases "eth_type = 0x86dd")
    case True
    show ?thesis
    proof (cases ok6)
      case y: True
      have c: "classify p data_len =
          Some (\<lparr>icmp_offset = l3 + 40, valid = 1, hash = Some (l3 + 8), hash_len = 16\<rparr>, None)"
        unfolding ce using True y ne by (simp add: ok6_def)
      have "l3 + 80 \<le> data_len" using y by (simp add: ok6_def)
      note kb [OF this]
      then show ?thesis
        unfolding ok6 [symmetric] using True y by (auto simp: c)
    next
      case n: False
      have "\<exists>v' why. classify p data_len = Some (v', Some why)"
        unfolding ce using True n ne by (auto simp: ok6_def)
      then have "\<nexists>v. classify p data_len = Some (v, None)" by auto
      then show ?thesis
        unfolding ok6 [symmetric] using True n by simp
    qed
  next
    case False
    have "\<forall>v. classify p data_len = Some (v, None) \<longrightarrow> hash_len v = 4"
      unfolding ce using False by (auto split: if_splits)
    then have "\<nexists>v. classify p data_len = Some (v, None) \<and> hash_len v = 16" by auto
    then show ?thesis using False by blast
  qed
qed

theorem ipv6_classification_witness:
  "94 = int (length frame6) \<and> (50::int) \<le> 94 \<and> eth_demux frame6 = Some (0x86dd, 14) \<and>
   (\<exists>v. classify frame6 94 = Some (v, None) \<and> hash_len v = 16 \<and> icmp_offset v = 14 + 40 \<and>
        hash v = Some (14 + 8) \<and> key_bytes frame6 v = Some ip6_src)"
proof -
  have h1: "94 = int (length frame6)" by (simp add: frame6_length)
  have h2: "(50::int) \<le> 94" by simp
  note t = ipv6_classification [OF h1 h2 frame6_demux]
  from t frame6_fields(1,2) obtain v where v: "classify frame6 94 = Some (v, None)" "hash_len v = 16"
    by auto
  with t have "icmp_offset v = 14 + 40 \<and> hash v = Some (14 + 8) \<and>
        key_bytes frame6 v = Some (take 16 (drop (nat (14 + 8)) frame6))"
    by blast
  then show ?thesis using h1 frame6_demux v frame6_fields(3) by auto
qed

text \<open>
  C6 (as stated, refuted). At verbosity 2 an admitted frame prints no line, and a frame
  rejected by the broadcast guard prints no line either.
\<close>

theorem verbose_two_prints_nothing:
  "verbose (main_state 1 10 2 0 None) = 2 \<and>
   handle_packet (ext_at 0 SendOk) (main_state 1 10 2 0 None) (frame4 3 4 0x40) 70 \<noteq> None \<and>
   handle_packet (ext_at 0 SendOk) (main_state 1 10 2 0 None) frame_bcast 70 \<noteq> None \<and>
   ret (the (handle_packet (ext_at 0 SendOk) (main_state 1 10 2 0 None) (frame4 3 4 0x40) 70)) =
     Return 1 \<and>
   printed (the (handle_packet (ext_at 0 SendOk) (main_state 1 10 2 0 None) (frame4 3 4 0x40) 70)) =
     [] \<and>
   ret (the (handle_packet (ext_at 0 SendOk) (main_state 1 10 2 0 None) frame_bcast 70)) =
     Return (-1) \<and>
   printed (the (handle_packet (ext_at 0 SendOk) (main_state 1 10 2 0 None) frame_bcast 70)) = []"
  by (simp add: frame4_admitted frame_bcast_early early_return_def sample_simps)

text \<open>
  C6 (amended). A frame dropped by the length guard or the broadcast guard prints
  nothing at any verbosity. Every other rejected frame prints one line when
  \<open>verbose \<ge> 2\<close>: the key given to \<^verbatim>\<open>ip_to_string\<close> and the reason, with the hex dump
  of the buffer when \<open>verbose \<ge> 3\<close>; it prints nothing when \<open>verbose \<le> 1\<close>. An admitted
  frame prints the source key and ``transmitting'' when \<open>verbose = 1\<close>, the same with
  the hex dump of the buffer when \<open>verbose \<ge> 3\<close>, and nothing when \<open>verbose \<le> 0\<close>.
\<close>

theorem verbose_output:
  assumes "data_len = int (length p)" and "handle_packet ext s p data_len = Some r"
  shows "((reason r = ''unknown'') = (data_len < 50 \<or> take 6 p = replicate 6 0xff)) \<and>
     (reason r = ''unknown'' \<longrightarrow> ret r = Return (-1) \<and> printed r = []) \<and>
     (ret r = Return (-1) \<and> reason r \<noteq> ''unknown'' \<longrightarrow>
        (\<exists>k. printed r =
           (if verbose s > 2 then [(k, reason r, Some (frame_out r))]
            else if verbose s > 1 then [(k, reason r, None)] else []))) \<and>
     (reason r = ''transmitting'' \<longrightarrow>
        (\<exists>v k. classify p data_len = Some (v, None) \<and> key_bytes p v = Some k \<and>
           (verbose s > 2 \<longrightarrow> printed r = [(k, ''transmitting'', Some (frame_out r))]) \<and>
           (verbose s = 1 \<longrightarrow> printed r = [(k, ''transmitting'', None)]) \<and>
           (verbose s < 1 \<longrightarrow> printed r = [])))"
  using assms(1)
proof (cases rule: handle_packet_paths [where ext = ext and s = s])
  case early
  then show ?thesis using assms(2) by (simp add: early_return_def)
next
  case (unclassified v why)
  have "why \<noteq> ''unknown''" "why \<noteq> ''transmitting''"
    using unclassified(4) reasons_distinct(1,3) by auto
  then show ?thesis using unclassified(1,2,5) assms(2) by auto
next
  case (filtered v k pm why)
  have "why \<noteq> ''unknown''" "why \<noteq> ''transmitting''"
    using filtered(7) reasons_distinct(2,4) by auto
  then show ?thesis using filtered(1,2,8) assms(2) by auto
next
  case (src_limited v k src')
  then show ?thesis using assms(2) by auto
next
  case (if_limited v k src' if')
  then show ?thesis using assms(2) by auto
next
  case (admitted v k src' if')
  have r: "r = transmit_out ext (s\<lparr>sources := src', ifaces := if'\<rparr>) (rewritten p) k"
    using admitted(8) assms(2) by simp
  have "\<exists>v k. classify p data_len = Some (v, None) \<and> key_bytes p v = Some k \<and>
           (verbose s > 2 \<longrightarrow> printed r = [(k, ''transmitting'', Some (frame_out r))]) \<and>
           (verbose s = 1 \<longrightarrow> printed r = [(k, ''transmitting'', None)]) \<and>
           (verbose s < 1 \<longrightarrow> printed r = [])"
    unfolding r using admitted(3,4) by (intro exI [of _ v] exI [of _ k]) simp
  moreover have "reason r = ''transmitting''" "ret r \<noteq> Return (-1)"
    unfolding r by simp_all
  ultimately show ?thesis using admitted(1,2) by simp
qed

theorem verbose_output_witness:
  "70 = int (length (frame4 3 4 0x40)) \<and>
   reason (the (handle_packet (ext_at 0 SendOk) (main_state (1 / 2) 10 3 0 None) (frame4 3 4 0x40) 70))
     \<noteq> ''unknown'' \<and>
   ret (the (handle_packet (ext_at 0 SendOk) (main_state (1 / 2) 10 3 0 None) (frame4 3 4 0x40) 70)) =
     Return (-1) \<and>
   length (printed (the (handle_packet (ext_at 0 SendOk) (main_state (1 / 2) 10 3 0 None)
                           (frame4 3 4 0x40) 70))) = 1"
proof -
  let ?X = "handle_packet (ext_at 0 SendOk) (main_state (1 / 2) 10 3 0 None) (frame4 3 4 0x40) 70"
  have h1: "70 = int (length (frame4 3 4 0x40))" by (rule frame4_wf)
  have h2: "?X = Some (the ?X)" by (rule handle_packet_the [OF h1])
  have h3: "reason (the ?X) \<noteq> ''unknown''" "ret (the ?X) = Return (-1)"
    by (simp_all add: frame4_src_limited)
  have v: "verbose (main_state (1 / 2) 10 3 0 None) > 2" by (simp add: sample_simps)
  from verbose_output [OF h1 h2] h3
  obtain k where "printed (the ?X) =
           (if verbose (main_state (1 / 2) 10 3 0 None) > 2
            then [(k, reason (the ?X), Some (frame_out (the ?X)))]
            else if verbose (main_state (1 / 2) 10 3 0 None) > 1
              then [(k, reason (the ?X), None)] else [])"
    by blast
  then show ?thesis using h1 h3 v by simp
qed

text \<open>
  C7. With the same frame, state and collaborators, the handler run with any two values of
  the dry-run flag reaches the same verdict (the same reason), leaves the same
  \<open>sources\<close> and \<open>ifaces\<close> tables and the same buffer, and prints the same lines. The
  flag decides only the send: a dry run sends nothing, and the return values differ
  only when the send of the other run ends the process.
\<close>

theorem dry_run_equivalence:
  assumes "data_len = int (length p)"
  shows "\<exists>r1 r2.
     handle_packet ext (s\<lparr>dry_run := d1\<rparr>) p data_len = Some r1 \<and>
     handle_packet ext (s\<lparr>dry_run := d2\<rparr>) p data_len = Some r2 \<and>
     reason r1 = reason r2 \<and>
     sources (state_out r1) = sources (state_out r2) \<and>
     ifaces (state_out r1) = ifaces (state_out r2) \<and>
     frame_out r1 = frame_out r2 \<and> printed r1 = printed r2 \<and>
     (ret r1 = ret r2 \<or> ret r1 = Fatal \<or> ret r2 = Fatal) \<and>
     sent r1 = (if d1 = 0 \<and> reason r1 = ''transmitting'' then [frame_out r1] else []) \<and>
     sent r2 = (if d2 = 0 \<and> reason r2 = ''transmitting'' then [frame_out r2] else [])"
  using assms
proof (cases rule: handle_packet_paths [where ext = ext and s = "s\<lparr>dry_run := d1\<rparr>"])
  case early
  then show ?thesis
    using handle_packet_early [of data_len p ext "s\<lparr>dry_run := d2\<rparr>"]
    by (simp add: early_return_def)
next
  case (unclassified v why)
  have "why \<noteq> ''transmitting''" using unclassified(4) reasons_distinct(3) by auto
  then show ?thesis
    using unclassified(5) hp_unclassified [OF assms unclassified(1-3), of ext "s\<lparr>dry_run := d2\<rparr>"]
    by simp
next
  case (filtered v k pm why)
  have "why \<noteq> ''transmitting''" using filtered(7) reasons_distinct(4) by auto
  moreover have "ports_map (s\<lparr>dry_run := d2\<rparr>) = Some pm" using filtered(5) by simp
  ultimately show ?thesis
    using filtered(8) hp_filtered [OF assms filtered(1-4) _ filtered(6), of "s\<lparr>dry_run := d2\<rparr>" ext]
    by simp
next
  case (src_limited v k src')
  have a: "port_ok (s\<lparr>dry_run := d2\<rparr>) p data_len v" using src_limited(5) by simp
  have b: "hashlimit_touch_hash ext (sources (s\<lparr>dry_run := d2\<rparr>)) k = (False, src')"
    using src_limited(6) by simp
  show ?thesis
    using src_limited(7) hp_src_limited [OF assms src_limited(1-4) a b]
    by simp
next
  case (if_limited v k src' if')
  have a: "port_ok (s\<lparr>dry_run := d2\<rparr>) p data_len v" using if_limited(5) by simp
  have b: "hashlimit_touch_hash ext (sources (s\<lparr>dry_run := d2\<rparr>)) k = (True, src')"
    using if_limited(6) by simp
  have c: "hashlimit_touch ext (ifaces (s\<lparr>dry_run := d2\<rparr>)) 0 = (False, if')"
    using if_limited(7) by simp
  show ?thesis
    using if_limited(8) hp_if_limited [OF assms if_limited(1-4) a b c]
    by simp
next
  case (admitted v k src' if')
  have a: "port_ok (s\<lparr>dry_run := d2\<rparr>) p data_len v" using admitted(5) by simp
  have b: "hashlimit_touch_hash ext (sources (s\<lparr>dry_run := d2\<rparr>)) k = (True, src')"
    using admitted(6) by simp
  have c: "hashlimit_touch ext (ifaces (s\<lparr>dry_run := d2\<rparr>)) 0 = (True, if')"
    using admitted(7) by simp
  show ?thesis
    using admitted(8) hp_admitted [OF assms admitted(1-4) a b c]
    by simp
qed

theorem dry_run_equivalence_witness:
  "70 = int (length (frame4 3 4 0x40)) \<and>
   reason (the (handle_packet (ext_at 0 SendOk) ((main_state 1 10 1 0 None)\<lparr>dry_run := 0\<rparr>)
                  (frame4 3 4 0x40) 70)) =
   reason (the (handle_packet (ext_at 0 SendOk) ((main_state 1 10 1 0 None)\<lparr>dry_run := 1\<rparr>)
                  (frame4 3 4 0x40) 70)) \<and>
   sources (state_out (the (handle_packet (ext_at 0 SendOk)
                  ((main_state 1 10 1 0 None)\<lparr>dry_run := 0\<rparr>) (frame4 3 4 0x40) 70))) =
   sources (state_out (the (handle_packet (ext_at 0 SendOk)
                  ((main_state 1 10 1 0 None)\<lparr>dry_run := 1\<rparr>) (frame4 3 4 0x40) 70))) \<and>
   sent (the (handle_packet (ext_at 0 SendOk) ((main_state 1 10 1 0 None)\<lparr>dry_run := 1\<rparr>)
                  (frame4 3 4 0x40) 70)) = []"
proof -
  have h1: "70 = int (length (frame4 3 4 0x40))" by (rule frame4_wf)
  from dry_run_equivalence [OF h1, where ext = "ext_at 0 SendOk"
      and s = "main_state 1 10 1 0 None" and ?d1.0 = 0 and ?d2.0 = 1]
  obtain r1 r2 where
    "handle_packet (ext_at 0 SendOk) ((main_state 1 10 1 0 None)\<lparr>dry_run := 0\<rparr>)
       (frame4 3 4 0x40) 70 = Some r1"
    "handle_packet (ext_at 0 SendOk) ((main_state 1 10 1 0 None)\<lparr>dry_run := 1\<rparr>)
       (frame4 3 4 0x40) 70 = Some r2"
    "reason r1 = reason r2" "sources (state_out r1) = sources (state_out r2)"
    "sent r2 = (if (1::int) = 0 \<and> reason r2 = ''transmitting'' then [frame_out r2] else [])"
    by blast
  then show ?thesis using h1 by simp
qed

text \<open>
  C8. For a buffer \<open>p\<close> of length \<open>data_len\<close>, \<open>handle_packet\<close> accesses only indices
  inside the buffer: no read or write of the model falls outside \<open>[0, data_len)\<close>, so
  the handler always produces an outcome.
\<close>

theorem handle_packet_in_bounds:
  "data_len = int (length p) \<Longrightarrow> \<exists>r. handle_packet ext s p data_len = Some r"
  by (rule handle_packet_total)

theorem handle_packet_in_bounds_witness:
  "70 = int (length (frame4 3 4 0x40)) \<and>
   (\<exists>r. handle_packet (ext_at 0 SendOk) (main_state 1 10 3 0 (Some {443})) (frame4 3 4 0x40) 70 = Some r)"
proof -
  have h: "70 = int (length (frame4 3 4 0x40))" by (simp add: frame4_length)
  show ?thesis using h handle_packet_in_bounds [OF h] by simp
qed

text \<open>
  C9. When the per-source limiter admits a classified frame and the per-interface
  limiter then denies it, the frame is rejected (return -1, nothing sent) and the
  \<open>sources\<close> table keeps the update of the admitting touch: it is the table any run
  that fully admits the same frame from the same \<open>sources\<close> table ends with.
\<close>

theorem source_token_not_refunded:
  assumes "data_len = int (length p)" and "handle_packet ext s p data_len = Some r"
    and "reason r = ''Ratelimited on outgoing interface''"
  shows "ret r = Return (-1) \<and> sent r = [] \<and>
     (\<exists>v k. classify p data_len = Some (v, None) \<and> key_bytes p v = Some k \<and>
        hashlimit_touch_hash ext (sources s) k = (True, sources (state_out r))) \<and>
     (\<forall>ext' s' r'.
        hashlimit_touch_hash ext' = hashlimit_touch_hash ext \<and> sources s' = sources s \<and>
        handle_packet ext' s' p data_len = Some r' \<and> ret r' = Return 1 \<longrightarrow>
        sources (state_out r') = sources (state_out r))"
  using assms(1)
proof (cases rule: handle_packet_paths [where ext = ext and s = s])
  case early
  then show ?thesis using assms(2,3) by (simp add: early_return_def)
next
  case (unclassified v why)
  then show ?thesis using assms(2,3) reasons_distinct(7) by auto
next
  case (filtered v k pm why)
  then show ?thesis using assms(2,3) reasons_distinct(8) by auto
next
  case (src_limited v k src')
  then show ?thesis using assms(2,3) by simp
next
  case (admitted v k src' if')
  then show ?thesis using assms(2,3) by simp
next
  case (if_limited v k src' if')
  have r: "r = reject_out (s\<lparr>sources := src', ifaces := if'\<rparr>) (rewritten p) k
                 ''Ratelimited on outgoing interface''"
    using if_limited(8) assms(2) by simp
  have "sources (state_out r') = src'"
    if h: "hashlimit_touch_hash ext' = hashlimit_touch_hash ext" "sources s' = sources s"
      "handle_packet ext' s' p data_len = Some r'" "ret r' = Return 1"
    for ext' :: "'a extern" and s' r'
    using assms(1)
  proof (cases rule: handle_packet_paths [where ext = ext' and s = s'])
    case early
    then show ?thesis using h(3,4) by (simp add: early_return_def)
  next
    case (unclassified v why)
    then show ?thesis using h(3,4) by simp
  next
    case (filtered v k pm why)
    then show ?thesis using h(3,4) by simp
  next
    case (src_limited v k src')
    then show ?thesis using h(3,4) by simp
  next
    case (if_limited v k src' if')
    then show ?thesis using h(3,4) by simp
  next
    case a: (admitted v2 k2 src2 if2)
    have "v2 = v" using a(3) if_limited(3) by simp
    then have "k2 = k" using a(4) if_limited(4) by simp
    then have "src2 = src'" using a(6) if_limited(6) h(1,2) by simp
    then show ?thesis using a(8) h(3) by simp
  qed
  then show ?thesis
    unfolding r using if_limited(3,4,6) by auto
qed

theorem source_token_not_refunded_witness:
  "70 = int (length (frame4 3 4 0x40)) \<and>
   reason (the (handle_packet (ext_at 0 SendOk) (main_state 1 (1 / 2) 0 0 None) (frame4 3 4 0x40) 70)) =
     ''Ratelimited on outgoing interface'' \<and>
   ret (the (handle_packet (ext_at 0 SendOk) (main_state 1 (1 / 2) 0 0 None) (frame4 3 4 0x40) 70)) =
     Return (-1) \<and>
   ret (the (handle_packet (ext_at 0 SendOk) (main_state 1 10 0 0 None) (frame4 3 4 0x40) 70)) =
     Return 1 \<and>
   sources (state_out (the (handle_packet (ext_at 0 SendOk) (main_state 1 10 0 0 None)
                              (frame4 3 4 0x40) 70))) =
   sources (state_out (the (handle_packet (ext_at 0 SendOk) (main_state 1 (1 / 2) 0 0 None)
                              (frame4 3 4 0x40) 70)))"
proof -
  let ?E = "ext_at 0 SendOk" and ?F = "frame4 3 4 0x40"
  let ?S = "main_state 1 (1 / 2) 0 0 None" and ?S' = "main_state 1 10 0 0 None"
  have h1: "70 = int (length ?F)" by (rule frame4_wf)
  have h2: "handle_packet ?E ?S ?F 70 = Some (the (handle_packet ?E ?S ?F 70))"
    by (rule handle_packet_the [OF h1])
  have h3: "reason (the (handle_packet ?E ?S ?F 70)) = ''Ratelimited on outgoing interface''"
    by (simp add: frame4_if_limited)
  have a1: "sources ?S' = sources ?S" by (simp add: main_state_def)
  have a2: "handle_packet ?E ?S' ?F 70 = Some (the (handle_packet ?E ?S' ?F 70))"
    by (rule handle_packet_the [OF h1])
  have a3: "ret (the (handle_packet ?E ?S' ?F 70)) = Return 1"
    by (simp add: frame4_admitted sample_simps)
  from source_token_not_refunded [OF h1 h2 h3]
  have "ret (the (handle_packet ?E ?S ?F 70)) = Return (-1)"
    and "\<forall>ext' s' r'.
        hashlimit_touch_hash ext' = hashlimit_touch_hash ?E \<and> sources s' = sources ?S \<and>
        handle_packet ext' s' ?F 70 = Some r' \<and> ret r' = Return 1 \<longrightarrow>
        sources (state_out r') = sources (state_out (the (handle_packet ?E ?S ?F 70)))"
    by blast+
  then show ?thesis using h1 h3 a1 a2 a3 by blast
qed

text \<open>
  C10. The handler never reads the ICMP type and code bytes. Let classification of a
  frame compute the ICMP offset \<open>off\<close>. Overwriting the bytes at \<open>off\<close> and \<open>off + 1\<close> with
  any two values leaves the classification result, the verdict (reason and admit or
  reject), both rate-limit tables and the printed keys and reasons unchanged; the
  return value is the same whenever the kernel answers the two sends alike.
\<close>

theorem icmp_type_code_ignored:
  assumes "data_len = int (length p)" and "50 \<le> data_len"
    and "classify p data_len = Some (v, rej)" and "icmp_offset v = off" and "0 \<le> off"
  shows "\<exists>r r'.
     handle_packet ext s p data_len = Some r \<and>
     handle_packet ext s (p[nat off := a, nat (off + 1) := b]) data_len = Some r' \<and>
     classify (p[nat off := a, nat (off + 1) := b]) data_len = Some (v, rej) \<and>
     reason r' = reason r \<and>
     (ret r' = Return (-1)) = (ret r = Return (-1)) \<and>
     state_out r' = state_out r \<and>
     map (\<lambda>(k, why, d). (k, why)) (printed r') = map (\<lambda>(k, why, d). (k, why)) (printed r) \<and>
     (raw_send ext (frame_out r') = raw_send ext (frame_out r) \<longrightarrow> ret r' = ret r)"
proof -
  define p' where "p' = p[nat off := a, nat (off + 1) := b]"
  have len: "50 \<le> length p" using assms(1,2) by simp
  have off: "34 \<le> off"
    using len
    by (cases rule: classify_split [where dl = data_len]; use assms(3-5) in auto)
  have wf': "data_len = int (length p')" using assms(1) by (simp add: p'_def)
  have c': "classify p' data_len = Some (v, rej)"
    unfolding p'_def using off len assms(3) by (simp add: classify_update)
  have t': "take 6 p' = take 6 p"
    unfolding p'_def using off by simp
  have k': "key_bytes p' v = key_bytes p v" if "rej = None"
  proof -
    from classify_None_key [OF len assms(1)] assms(3) that obtain h where
      "hash v = Some h" "12 \<le> h" "0 \<le> hash_len v" "h + hash_len v \<le> icmp_offset v"
      by blast
    then show ?thesis
      unfolding p'_def using assms(4) by (simp add: key_bytes_update)
  qed
  have f': "port_filter pm p' data_len (icmp_offset v) = port_filter pm p data_len (icmp_offset v)"
    for pm
    unfolding p'_def using assms(4,5) by (simp add: port_filter_update)
  have ok': "port_ok s p' data_len v = port_ok s p data_len v"
    by (simp add: f')
  from assms(1) have "\<exists>r r'.
     handle_packet ext s p data_len = Some r \<and>
     handle_packet ext s p' data_len = Some r' \<and>
     classify p' data_len = Some (v, rej) \<and>
     reason r' = reason r \<and>
     (ret r' = Return (-1)) = (ret r = Return (-1)) \<and>
     state_out r' = state_out r \<and>
     map (\<lambda>(k, why, d). (k, why)) (printed r') = map (\<lambda>(k, why, d). (k, why)) (printed r) \<and>
     (raw_send ext (frame_out r') = raw_send ext (frame_out r) \<longrightarrow> ret r' = ret r)"
  proof (cases rule: handle_packet_paths [where ext = ext and s = s])
    case early
    then show ?thesis
      using handle_packet_early [of data_len p' ext s] t' c' by (simp add: early_return_def)
  next
    case (unclassified v1 why)
    have "classify p' data_len = Some (v1, Some why)" using c' unclassified(3) assms(3) by simp
    from hp_unclassified [OF wf' unclassified(1) _ this, of ext s] unclassified(2,5) t' c'
    show ?thesis by simp
  next
    case (filtered v1 k pm why)
    have v1: "v1 = v" "rej = None" using filtered(3) assms(3) by simp_all
    from hp_filtered [OF wf' filtered(1) _ _ _ filtered(5), of v k why ext]
      filtered(2,4,6,8) t' c' k' f' v1
    show ?thesis by simp
  next
    case (src_limited v1 k src')
    have v1: "v1 = v" "rej = None" using src_limited(3) assms(3) by simp_all
    from hp_src_limited [OF wf' src_limited(1), of v k s ext src']
      src_limited(2,4,5,6,7) t' c' k' ok' v1
    show ?thesis by simp
  next
    case (if_limited v1 k src' if')
    have v1: "v1 = v" "rej = None" using if_limited(3) assms(3) by simp_all
    from hp_if_limited [OF wf' if_limited(1), of v k s ext src' if']
      if_limited(2,4,5,6,7,8) t' c' k' ok' v1
    show ?thesis by simp
  next
    case (admitted v1 k src' if')
    have v1: "v1 = v" "rej = None" using admitted(3) assms(3) by simp_all
    from hp_admitted [OF wf' admitted(1), of v k s ext src' if']
      admitted(2,4,5,6,7,8) t' c' k' ok' v1
    show ?thesis by simp
  qed
  then show ?thesis unfolding p'_def .
qed

theorem icmp_type_code_ignored_witness:
  "70 = int (length (frame4 3 4 0x40)) \<and> (50::int) \<le> 70 \<and>
   classify (frame4 3 4 0x40) 70 =
     Some (\<lparr>icmp_offset = 34, valid = 1, hash = Some 26, hash_len = 4\<rparr>, None) \<and>
   (frame4 3 4 0x40)[nat 34 := 8, nat (34 + 1) := 0] = frame4 8 0 0x40 \<and>
   reason (the (handle_packet (ext_at 0 SendOk) (main_state 1 10 0 0 None) (frame4 8 0 0x40) 70)) =
   reason (the (handle_packet (ext_at 0 SendOk) (main_state 1 10 0 0 None) (frame4 3 4 0x40) 70)) \<and>
   state_out (the (handle_packet (ext_at 0 SendOk) (main_state 1 10 0 0 None) (frame4 8 0 0x40) 70)) =
   state_out (the (handle_packet (ext_at 0 SendOk) (main_state 1 10 0 0 None) (frame4 3 4 0x40) 70)) \<and>
   ret (the (handle_packet (ext_at 0 SendOk) (main_state 1 10 0 0 None) (frame4 8 0 0x40) 70)) = Return 1"
proof -
  let ?E = "ext_at 0 SendOk" and ?S = "main_state 1 10 0 0 None"
  have h1: "70 = int (length (frame4 3 4 0x40))" by (rule frame4_wf)
  have h2: "(50::int) \<le> 70" by simp
  have h4: "icmp_offset \<lparr>icmp_offset = 34, valid = 1, hash = Some 26, hash_len = 4\<rparr> = 34" by simp
  have h5: "(0::int) \<le> 34" by simp
  from icmp_type_code_ignored [OF h1 h2 frame4_classify h4 h5, where ext = ?E and s = ?S
      and a = 8 and b = 0]
  obtain r r' where
    "handle_packet ?E ?S (frame4 3 4 0x40) 70 = Some r"
    "handle_packet ?E ?S ((frame4 3 4 0x40)[nat 34 := 8, nat (34 + 1) := 0]) 70 = Some r'"
    "reason r' = reason r" "state_out r' = state_out r"
    by blast
  moreover have "ret (the (handle_packet ?E ?S (frame4 8 0 0x40) 70)) = Return 1"
    by (simp add: frame4_admitted sample_simps)
  ultimately show ?thesis
    using h1 frame4_classify [of 3 4 "0x40"] by (simp add: frame4_update)
qed

end
